theory Spec2Isabelle
  imports Complex_Main "HOL-Library.Product_Lexorder"
begin

section \<open>Python values\<close>

text \<open>
  The geocoding service answers in JSON, and the code handles the decoded bodies as
  untyped dicts and lists. \<open>JNull\<close> is Python's \<open>None\<close>. A dict is an association list;
  lookups take the first binding of a key. Python's floats are modelled by the reals
  (no rounding, no infinities), its unbounded ints by \<open>int\<close>, and a \<open>str\<close> by a
  \<open>string\<close> whose characters are the code points below 256.
\<close>

datatype json =
    JNull
  | JBool bool
  | JInt int
  | JFloat real
  | JStr string
  | JList "json list"
  | JDict "(string \<times> json) list"

type_synonym raw = "(string \<times> json) list"

text \<open>The message templates of \<open>constants.ErrorMessages\<close>, each with its arguments.\<close>

datatype message =
    NO_RESULTS string
  | INVALID_LAT real
  | INVALID_LON real
  | RATE_LIMITED
  | API_ERROR int string
  | NETWORK_ERROR string
  | EMPTY_QUERY
  | BATCH_EMPTY
  | BATCH_TOO_LARGE nat nat
  | WAYPOINTS_MIN
  | Text string

datatype pyexc =
    ValueError message
  | RuntimeError message
  | ConnectionError message
  | KeyError message
  | TypeError message
  | IndexError message
  | UnboundLocalError message
  | OtherException message

fun str_exc :: "pyexc \<Rightarrow> message" where
  "str_exc (ValueError m) = m"
| "str_exc (RuntimeError m) = m"
| "str_exc (ConnectionError m) = m"
| "str_exc (KeyError m) = m"
| "str_exc (TypeError m) = m"
| "str_exc (IndexError m) = m"
| "str_exc (UnboundLocalError m) = m"
| "str_exc (OtherException m) = m"

text \<open>
  Library functions the code calls and this development does not define: the parsers
  behind \<open>float(str)\<close> and \<open>int(str)\<close> (\<open>None\<close> where Python raises ValueError),
  the text of a float in an f-string, \<open>json.dumps(d, sort_keys=True)\<close> and
  \<open>hashlib.md5(s.encode()).hexdigest()\<close>.
\<close>

record pylib =
  float_of_str :: "string \<Rightarrow> real option"
  int_of_str :: "string \<Rightarrow> int option"
  str_of_float :: "real \<Rightarrow> string"
  json_dumps_sorted :: "raw \<Rightarrow> string"
  md5_hexdigest :: "string \<Rightarrow> string"

fun truthy :: "json \<Rightarrow> bool" where
  "truthy JNull = False"
| "truthy (JBool b) = b"
| "truthy (JInt n) = (n \<noteq> 0)"
| "truthy (JFloat x) = (x \<noteq> 0)"
| "truthy (JStr s) = (s \<noteq> [])"
| "truthy (JList xs) = (xs \<noteq> [])"
| "truthy (JDict kvs) = (kvs \<noteq> [])"

fun py_float :: "pylib \<Rightarrow> json \<Rightarrow> pyexc + real" where
  "py_float lib (JInt n) = Inr (of_int n)"
| "py_float lib (JFloat x) = Inr x"
| "py_float lib (JBool b) = Inr (if b then 1 else 0)"
| "py_float lib (JStr s) =
     (case float_of_str lib s of
        None \<Rightarrow> Inl (ValueError (Text ''could not convert string to float''))
      | Some x \<Rightarrow> Inr x)"
| "py_float lib v = Inl (TypeError (Text ''float() argument must be a string or a real number''))"

fun py_int :: "pylib \<Rightarrow> json \<Rightarrow> pyexc + int" where
  "py_int lib (JInt n) = Inr n"
| "py_int lib (JFloat x) = Inr (if 0 \<le> x then \<lfloor>x\<rfloor> else \<lceil>x\<rceil>)"
| "py_int lib (JBool b) = Inr (if b then 1 else 0)"
| "py_int lib (JStr s) =
     (case int_of_str lib s of
        None \<Rightarrow> Inl (ValueError (Text ''invalid literal for int() with base 10''))
      | Some n \<Rightarrow> Inr n)"
| "py_int lib v = Inl (TypeError (Text ''int() argument must be a string or a real number''))"

text \<open>What a \<open>for\<close> over a decoded value yields: the elements of a list, the characters
  of a string, the keys of a dict; anything else is not iterable.\<close>

fun py_iter :: "json \<Rightarrow> pyexc + json list" where
  "py_iter (JList xs) = Inr xs"
| "py_iter (JStr s) = Inr (map (\<lambda>c. JStr [c]) s)"
| "py_iter (JDict kvs) = Inr (map (\<lambda>kv. JStr (fst kv)) kvs)"
| "py_iter v = Inl (TypeError (Text ''object is not iterable''))"

text \<open>\<open>d.get(k)\<close> and \<open>d.get(k, default)\<close>, and \<open>d[k]\<close> which raises KeyError.\<close>

definition dict_get :: "raw \<Rightarrow> string \<Rightarrow> json" where
  "dict_get d k = (case map_of d k of None \<Rightarrow> JNull | Some v \<Rightarrow> v)"

definition dict_get_default :: "raw \<Rightarrow> string \<Rightarrow> json \<Rightarrow> json" where
  "dict_get_default d k dflt = (case map_of d k of None \<Rightarrow> dflt | Some v \<Rightarrow> v)"

definition dict_item :: "raw \<Rightarrow> string \<Rightarrow> pyexc + json" where
  "dict_item d k = (case map_of d k of None \<Rightarrow> Inl (KeyError (Text k)) | Some v \<Rightarrow> Inr v)"

text \<open>A list comprehension \<open>[f(x) for x in xs]\<close> whose \<open>f\<close> may raise: the first
  exception ends it.\<close>

fun map_exc :: "('a \<Rightarrow> pyexc + 'b) \<Rightarrow> 'a list \<Rightarrow> pyexc + 'b list" where
  "map_exc f [] = Inr []"
| "map_exc f (x # xs) =
     (case f x of
        Inl e \<Rightarrow> Inl e
      | Inr y \<Rightarrow> (case map_exc f xs of Inl e \<Rightarrow> Inl e | Inr ys \<Rightarrow> Inr (y # ys)))"

text \<open>\<open>round(x, ndigits)\<close>: to the nearest multiple of \<open>10^-ndigits\<close>, ties to even.\<close>

definition round_half_even :: "real \<Rightarrow> int" where
  "round_half_even y =
     (let f = \<lfloor>y\<rfloor>; d = y - of_int f
      in if d < 1 / 2 then f else if 1 / 2 < d then f + 1 else if even f then f else f + 1)"

definition py_round :: "real \<Rightarrow> nat \<Rightarrow> real" where
  "py_round x ndigits = of_int (round_half_even (x * 10 ^ ndigits)) / 10 ^ ndigits"

subsection \<open>Strings\<close>

definition isspace :: "char \<Rightarrow> bool" where
  "isspace c =
     (let n = (of_char c :: nat)
      in (9 \<le> n \<and> n \<le> 13) \<or> (28 \<le> n \<and> n \<le> 32) \<or> n = 133 \<or> n = 160)"

definition lower_char :: "char \<Rightarrow> char" where
  "lower_char c =
     (let n = (of_char c :: nat)
      in if (65 \<le> n \<and> n \<le> 90) \<or> (192 \<le> n \<and> n \<le> 222 \<and> n \<noteq> 215)
         then char_of (n + 32) else c)"

definition py_lower :: "string \<Rightarrow> string" where
  "py_lower s = map lower_char s"

text \<open>\<open>s.split()\<close>: the maximal runs of non-whitespace characters, in order.\<close>

fun py_split_from :: "string \<Rightarrow> string \<Rightarrow> string list" where
  "py_split_from cur [] = (if cur = [] then [] else [cur])"
| "py_split_from cur (c # cs) =
     (if isspace c
      then (if cur = [] then py_split_from [] cs else cur # py_split_from [] cs)
      else py_split_from (cur @ [c]) cs)"

definition py_split :: "string \<Rightarrow> string list" where
  "py_split s = py_split_from [] s"

fun py_join :: "string \<Rightarrow> string list \<Rightarrow> string" where
  "py_join sep [] = []"
| "py_join sep [w] = w"
| "py_join sep (w # ws) = w @ sep @ py_join sep ws"

definition py_strip :: "string \<Rightarrow> string" where
  "py_strip s = rev (dropWhile isspace (rev (dropWhile isspace s)))"

section \<open>constants.py\<close>

definition RATE_LIMIT_SECONDS :: real where "RATE_LIMIT_SECONDS = 1"
definition DEFAULT_FORMAT :: string where "DEFAULT_FORMAT = ''jsonv2''"
definition CACHE_TTL_SECONDS :: real where "CACHE_TTL_SECONDS = 3600"
definition CACHE_MAX_SIZE :: nat where "CACHE_MAX_SIZE = 1000"
definition MAX_RETRIES :: nat where "MAX_RETRIES = 3"
definition RETRY_BASE_DELAY :: real where "RETRY_BASE_DELAY = 2"
definition RETRYABLE_STATUS_CODES :: "int list" where "RETRYABLE_STATUS_CODES = [429, 503]"
definition BATCH_MAX_QUERIES :: nat where "BATCH_MAX_QUERIES = 50"
definition DEFAULT_BBOX_BUFFER :: real where "DEFAULT_BBOX_BUFFER = 1 / 100"

definition ZoomLevel_CITY :: int where "ZoomLevel_CITY = 10"
definition ZoomLevel_SUBURB :: int where "ZoomLevel_SUBURB = 14"
definition ZoomLevel_STREET :: int where "ZoomLevel_STREET = 16"
definition ZoomLevel_BUILDING :: int where "ZoomLevel_BUILDING = 18"

definition PLACE_RANK_BUFFERS :: "((int \<times> int) \<times> real) list" where
  "PLACE_RANK_BUFFERS =
     [((0, 4), 10), ((5, 8), 2), ((9, 12), 1 / 2), ((13, 16), 1 / 10),
      ((17, 20), 1 / 100), ((21, 26), 5 / 1000), ((27, 30), 1 / 1000)]"

definition ADMIN_LEVEL_KEYS :: "(string \<times> string) list" where
  "ADMIN_LEVEL_KEYS =
     [(''country'', ''country''), (''state'', ''state''), (''county'', ''county''),
      (''city'', ''city''), (''town'', ''town''), (''village'', ''village''),
      (''suburb'', ''suburb''), (''neighbourhood'', ''neighbourhood'')]"

section \<open>core/nominatim.py: geometry helpers\<close>

definition convert_bbox :: "pylib \<Rightarrow> json \<Rightarrow> pyexc + real list" where
  "convert_bbox lib nominatim_bbox =
     (case py_iter nominatim_bbox of
        Inl e \<Rightarrow> Inl e
      | Inr xs \<Rightarrow>
          (case map_exc (py_float lib) xs of
             Inl e \<Rightarrow> Inl e
           | Inr [min_lat, max_lat, min_lon, max_lon] \<Rightarrow> Inr [min_lon, min_lat, max_lon, max_lat]
           | Inr _ \<Rightarrow> Inl (ValueError (Text ''wrong number of values to unpack''))))"

fun rank_loop :: "((int \<times> int) \<times> real) list \<Rightarrow> int \<Rightarrow> real" where
  "rank_loop [] place_rank = DEFAULT_BBOX_BUFFER"
| "rank_loop (((low, high), buffer) # rest) place_rank =
     (if low \<le> place_rank \<and> place_rank \<le> high then buffer else rank_loop rest place_rank)"

definition bbox_buffer_for_rank :: "int option \<Rightarrow> real" where
  "bbox_buffer_for_rank place_rank =
     (case place_rank of
        None \<Rightarrow> DEFAULT_BBOX_BUFFER
      | Some r \<Rightarrow> rank_loop PLACE_RANK_BUFFERS r)"

definition radians :: "real \<Rightarrow> real" where
  "radians x = x * pi / 180"

definition compute_area_km2 :: "real list \<Rightarrow> pyexc + real" where
  "compute_area_km2 bbox =
     (case bbox of
        [west, south, east, north] \<Rightarrow>
          (let mid_lat = (south + north) / 2;
               width_km = (east - west) * (11132 / 100) * cos (radians mid_lat);
               height_km = (north - south) * (11132 / 100)
           in Inr \<bar>width_km * height_km\<bar>)
      | _ \<Rightarrow> Inl (ValueError (Text ''wrong number of values to unpack'')))"

fun min_from :: "real \<Rightarrow> real list \<Rightarrow> real" where
  "min_from m [] = m"
| "min_from m (x # xs) = min_from (if x < m then x else m) xs"

fun max_from :: "real \<Rightarrow> real list \<Rightarrow> real" where
  "max_from m [] = m"
| "max_from m (x # xs) = max_from (if m < x then x else m) xs"

text \<open>\<open>b[i]\<close> raises IndexError on a box with fewer than four numbers, in whichever of
  the four passes reaches it first.\<close>

definition bbox_union :: "real list list \<Rightarrow> pyexc + real list" where
  "bbox_union bboxes =
     (case bboxes of
        [] \<Rightarrow> Inr [0, 0, 0, 0]
      | b # bs \<Rightarrow>
          if list_ex (\<lambda>c. length c < 4) bboxes
          then Inl (IndexError (Text ''list index out of range''))
          else Inr [min_from (b ! 0) (map (\<lambda>c. c ! 0) bs),
                    min_from (b ! 1) (map (\<lambda>c. c ! 1) bs),
                    max_from (b ! 2) (map (\<lambda>c. c ! 2) bs),
                    max_from (b ! 3) (map (\<lambda>c. c ! 3) bs)])"

definition py_sqrt :: "real \<Rightarrow> pyexc + real" where
  "py_sqrt x = (if x < 0 then Inl (ValueError (Text ''math domain error'')) else Inr (sqrt x))"

definition py_atan2 :: "real \<Rightarrow> real \<Rightarrow> real" where
  "py_atan2 y x =
     (if 0 < x then arctan (y / x)
      else if x < 0 then (if 0 \<le> y then arctan (y / x) + pi else arctan (y / x) - pi)
      else if 0 < y then pi / 2
      else if y < 0 then - (pi / 2)
      else 0)"

definition haversine_distance :: "real \<Rightarrow> real \<Rightarrow> real \<Rightarrow> real \<Rightarrow> pyexc + real" where
  "haversine_distance lat1 lon1 lat2 lon2 =
     (let r = 6371000;
          phi1 = radians lat1;
          phi2 = radians lat2;
          d_phi = radians (lat2 - lat1);
          d_lambda = radians (lon2 - lon1);
          a = (sin (d_phi / 2))\<^sup>2 + cos phi1 * cos phi2 * (sin (d_lambda / 2))\<^sup>2
      in case py_sqrt a of
           Inl e \<Rightarrow> Inl e
         | Inr sa \<Rightarrow>
             (case py_sqrt (1 - a) of
                Inl e \<Rightarrow> Inl e
              | Inr sb \<Rightarrow> Inr (r * (2 * py_atan2 sa sb))))"

section \<open>core/nominatim.py: the response cache\<close>

record CacheEntry =
  data :: json
  timestamp :: real

text \<open>The \<open>OrderedDict\<close>: keys are unique, the head is the least recently used entry.\<close>

type_synonym cache = "(string \<times> CacheEntry) list"

definition od_contains :: "string \<Rightarrow> cache \<Rightarrow> bool" where
  "od_contains key c = (key \<in> set (map fst c))"

definition od_del :: "string \<Rightarrow> cache \<Rightarrow> cache" where
  "od_del key c = filter (\<lambda>kv. fst kv \<noteq> key) c"

text \<open>Both callers of \<open>move_to_end\<close> have checked \<open>key in self._cache\<close> first, so its
  KeyError is not modelled.\<close>

definition od_move_to_end :: "string \<Rightarrow> cache \<Rightarrow> cache" where
  "od_move_to_end key c = filter (\<lambda>kv. fst kv \<noteq> key) c @ filter (\<lambda>kv. fst kv = key) c"

fun od_set :: "string \<Rightarrow> CacheEntry \<Rightarrow> cache \<Rightarrow> cache" where
  "od_set key e [] = [(key, e)]"
| "od_set key e (kv # c) = (if fst kv = key then (key, e) # c else kv # od_set key e c)"

definition od_popitem_first :: "cache \<Rightarrow> pyexc + cache" where
  "od_popitem_first c =
     (case c of [] \<Rightarrow> Inl (KeyError (Text ''dictionary is empty'')) | kv # rest \<Rightarrow> Inr rest)"

text \<open>\<open>now\<close> is the value \<open>time.time()\<close> returns inside the call.\<close>

definition cache_get :: "real \<Rightarrow> string \<Rightarrow> cache \<Rightarrow> json option \<times> cache" where
  "cache_get now key c =
     (case map_of c key of
        None \<Rightarrow> (None, c)
      | Some entry \<Rightarrow>
          if now - timestamp entry > CACHE_TTL_SECONDS
          then (None, od_del key c)
          else (Some (data entry), od_move_to_end key c))"

definition cache_put :: "real \<Rightarrow> string \<Rightarrow> json \<Rightarrow> cache \<Rightarrow> pyexc + cache" where
  "cache_put now key d c =
     (if od_contains key c
      then Inr (od_set key \<lparr>data = d, timestamp = now\<rparr> (od_move_to_end key c))
      else if CACHE_MAX_SIZE \<le> length c
      then (case od_popitem_first c of
              Inl e \<Rightarrow> Inl e
            | Inr c' \<Rightarrow> Inr (od_set key \<lparr>data = d, timestamp = now\<rparr> c'))
      else Inr (od_set key \<lparr>data = d, timestamp = now\<rparr> c))"

text \<open>A run of cache operations on a client, from the empty cache of \<open>__init__\<close>. A put
  that raises leaves the cache as it was.\<close>

datatype cache_op = CacheGet real string | CachePut real string json

fun cache_step :: "cache \<Rightarrow> cache_op \<Rightarrow> cache" where
  "cache_step c (CacheGet now key) = snd (cache_get now key c)"
| "cache_step c (CachePut now key d) =
     (case cache_put now key d c of Inl e \<Rightarrow> c | Inr c' \<Rightarrow> c')"

definition cache_after :: "cache_op list \<Rightarrow> cache" where
  "cache_after ops = foldl cache_step [] ops"

section \<open>core/nominatim.py: cache keys and the request executor\<close>

definition normalize_value :: "json \<Rightarrow> json" where
  "normalize_value v =
     (case v of JStr s \<Rightarrow> JStr (py_join '' '' (py_split (py_lower s))) | _ \<Rightarrow> v)"

definition normalize_params :: "raw \<Rightarrow> raw" where
  "normalize_params params = map (\<lambda>kv. (fst kv, normalize_value (snd kv))) params"

definition cache_raw :: "pylib \<Rightarrow> string \<Rightarrow> raw \<Rightarrow> string" where
  "cache_raw lib endpoint params =
     endpoint @ '':'' @ json_dumps_sorted lib (normalize_params params)"

definition cache_key :: "pylib \<Rightarrow> string \<Rightarrow> raw \<Rightarrow> string" where
  "cache_key lib endpoint params = md5_hexdigest lib (cache_raw lib endpoint params)"

record Response =
  status_code :: int
  resp_text :: string
  resp_json :: json

text \<open>What one \<open>client.get\<close> comes back with: a response, one of the two httpx
  exceptions the code catches, or any other exception, which it lets through.\<close>

datatype outcome =
    Responded Response
  | ConnectError string
  | TimeoutException string
  | Raised pyexc

datatype event = RateLimit | HttpGet string raw | Sleep real

definition dict_setdefault :: "string \<Rightarrow> json \<Rightarrow> raw \<Rightarrow> raw" where
  "dict_setdefault k v d = (if k \<in> set (map fst d) then d else d @ [(k, v)])"

text \<open>
  The \<open>for attempt in range(MAX_RETRIES + 1)\<close> loop. \<open>send attempt\<close> is the outcome of
  the GET issued in iteration \<open>attempt\<close>; \<open>response\<close> is the variable the loop binds,
  unbound before the first iteration. The events are returned in the order they happen.
\<close>

fun attempt_loop ::
  "(nat \<Rightarrow> outcome) \<Rightarrow> string \<Rightarrow> raw \<Rightarrow> nat list \<Rightarrow> Response option
     \<Rightarrow> (pyexc + Response option) \<times> event list" where
  "attempt_loop send url params [] response = (Inr response, [])"
| "attempt_loop send url params (attempt # rest) response =
     (case send attempt of
        ConnectError e \<Rightarrow>
          (Inl (ConnectionError (NETWORK_ERROR e)), [RateLimit, HttpGet url params])
      | TimeoutException e \<Rightarrow>
          (Inl (ConnectionError (NETWORK_ERROR e)), [RateLimit, HttpGet url params])
      | Raised x \<Rightarrow> (Inl x, [RateLimit, HttpGet url params])
      | Responded r \<Rightarrow>
          if status_code r \<in> set RETRYABLE_STATUS_CODES \<and> attempt < MAX_RETRIES
          then (let delay = RETRY_BASE_DELAY * 2 ^ attempt;
                    later = attempt_loop send url params rest (Some r)
                in (fst later, [RateLimit, HttpGet url params, Sleep delay] @ snd later))
          else (Inr (Some r), [RateLimit, HttpGet url params]))"

text \<open>
  \<open>_request\<close>, in parts: \<open>common_params\<close> is its head, \<open>fetch\<close> is the body from the
  retry loop on, run on a cache miss; \<open>request\<close> is the whole function. \<open>now_get\<close> and \<open>now_put\<close> are the two
  readings of \<open>time.time()\<close>. A cached \<open>None\<close> counts as a miss, as
  \<open>cached is not None\<close> has it.
\<close>

definition fetch ::
  "string \<Rightarrow> (nat \<Rightarrow> outcome) \<Rightarrow> real \<Rightarrow> string \<Rightarrow> string \<Rightarrow> raw \<Rightarrow> cache
     \<Rightarrow> (pyexc + json) \<times> cache \<times> event list" where
  "fetch base_url send now_put endpoint key params c1 =
     (let url = base_url @ ''/'' @ endpoint;
          ran = attempt_loop send url params [0..<MAX_RETRIES + 1] None;
          evs = snd ran
      in case fst ran of
           Inl e \<Rightarrow> (Inl e, c1, evs)
         | Inr None \<Rightarrow> (Inl (UnboundLocalError (Text ''response'')), c1, evs)
         | Inr (Some response) \<Rightarrow>
             if status_code response = 429
             then (Inl (RuntimeError RATE_LIMITED), c1, evs)
             else if status_code response \<noteq> 200
             then (Inl (RuntimeError
                     (API_ERROR (status_code response) (take 200 (resp_text response)))),
                   c1, evs)
             else (case cache_put now_put key (resp_json response) c1 of
                     Inl e \<Rightarrow> (Inl e, c1, evs)
                   | Inr c2 \<Rightarrow> (Inr (resp_json response), c2, evs)))"

text \<open>The three \<open>params.setdefault\<close> at the head of \<open>_request\<close>.\<close>

definition common_params :: "string \<Rightarrow> raw \<Rightarrow> raw" where
  "common_params email params0 =
     (let params1 = dict_setdefault ''format'' (JStr DEFAULT_FORMAT) params0;
          params2 = dict_setdefault ''addressdetails'' (JStr ''1'') params1
      in if email \<noteq> [] then dict_setdefault ''email'' (JStr email) params2 else params2)"

definition request ::
  "pylib \<Rightarrow> string \<Rightarrow> string \<Rightarrow> (nat \<Rightarrow> outcome) \<Rightarrow> real \<Rightarrow> real \<Rightarrow> string \<Rightarrow> raw \<Rightarrow> cache
     \<Rightarrow> (pyexc + json) \<times> cache \<times> event list" where
  "request lib base_url email send now_get now_put endpoint params0 c =
     (let params = common_params email params0;
          key = cache_key lib endpoint params;
          looked = cache_get now_get key c;
          c1 = snd looked
      in case fst looked of
           None \<Rightarrow> fetch base_url send now_put endpoint key params c1
         | Some cached \<Rightarrow>
             if cached \<noteq> JNull then (Inr cached, c1, [])
             else fetch base_url send now_put endpoint key params c1)"

section \<open>core/geocoder.py\<close>

text \<open>The result dataclasses. Several share field names, so each field carries the
  initial of its class.\<close>

record GeocodeItem =
  g_lat :: real
  g_lon :: real
  g_display_name :: json
  g_bbox :: "real list"
  g_osm_type :: json
  g_osm_id :: "int option"
  g_importance :: "real option"
  g_place_rank :: "int option"
  g_address :: json
  g_category :: json
  g_place_type :: json

record ReverseResult =
  r_lat :: real
  r_lon :: real
  r_display_name :: json
  r_address :: json
  r_bbox :: "real list"
  r_osm_type :: json
  r_osm_id :: "int option"
  r_place_rank :: "int option"

record BboxResult =
  b_place_name :: json
  b_bbox :: "real list"
  b_center :: "real list"
  b_area_km2 :: "real option"

record NearbyItem =
  n_display_name :: json
  n_lat :: real
  n_lon :: real
  n_distance_m :: "real option"
  n_place_type :: json
  n_osm_type :: json
  n_importance :: "real option"

record AdminBoundaryItem =
  a_level :: string
  a_name :: json

record BatchItem =
  bt_query :: string
  bt_results :: "GeocodeItem list option"
  bt_error :: "message option"

record RouteWaypointItem =
  w_name :: json
  w_lat :: real
  w_lon :: real
  w_bbox :: "real list"

record RouteLegItem =
  l_from_name :: json
  l_to_name :: json
  l_distance_m :: real

record RouteResult =
  rt_waypoints :: "RouteWaypointItem list"
  rt_legs :: "RouteLegItem list"
  rt_total_distance_m :: real
  rt_bbox :: "real list"

text \<open>
  The client the orchestrator holds, seen from outside: what \<open>search\<close> and \<open>reverse\<close>
  return or raise may depend on every call made on it before (its cache, the service).
  The list of calls made so far is the state the operations thread.
\<close>

datatype call =
    Search string int "string option" "string option" bool "string option"
  | Reverse real real int "string option"

record NominatimClient =
  client_search :: "call list \<Rightarrow> call \<Rightarrow> pyexc + raw list"
  client_reverse :: "call list \<Rightarrow> call \<Rightarrow> pyexc + raw"

definition validate_coordinates :: "real \<Rightarrow> real \<Rightarrow> pyexc + unit" where
  "validate_coordinates lat lon =
     (if \<not> (- 90 \<le> lat \<and> lat \<le> 90) then Inl (ValueError (INVALID_LAT lat))
      else if \<not> (- 180 \<le> lon \<and> lon \<le> 180) then Inl (ValueError (INVALID_LON lon))
      else Inr ())"

definition validate_query :: "string \<Rightarrow> pyexc + unit" where
  "validate_query q =
     (if q = [] \<or> py_strip q = [] then Inl (ValueError EMPTY_QUERY) else Inr ())"

text \<open>\<open>int(raw[k]) if raw.get(k) else None\<close>, and the same with \<open>float\<close>.\<close>

definition int_if_set :: "pylib \<Rightarrow> raw \<Rightarrow> string \<Rightarrow> pyexc + int option" where
  "int_if_set lib r k =
     (if truthy (dict_get r k)
      then (case py_int lib (dict_get r k) of Inl e \<Rightarrow> Inl e | Inr n \<Rightarrow> Inr (Some n))
      else Inr None)"

definition float_if_set :: "pylib \<Rightarrow> raw \<Rightarrow> string \<Rightarrow> pyexc + real option" where
  "float_if_set lib r k =
     (if truthy (dict_get r k)
      then (case py_float lib (dict_get r k) of Inl e \<Rightarrow> Inl e | Inr x \<Rightarrow> Inr (Some x))
      else Inr None)"

definition bind_exc :: "pyexc + 'a \<Rightarrow> ('a \<Rightarrow> pyexc + 'b) \<Rightarrow> pyexc + 'b" where
  "bind_exc m f = (case m of Inl e \<Rightarrow> Inl e | Inr x \<Rightarrow> f x)"

definition search_bbox :: "pylib \<Rightarrow> raw \<Rightarrow> real \<Rightarrow> real \<Rightarrow> pyexc + real list" where
  "search_bbox lib r lat lon =
     (let bbox_raw = dict_get r ''boundingbox''
      in if truthy bbox_raw then convert_bbox lib bbox_raw
         else bind_exc (int_if_set lib r ''place_rank'') (\<lambda>rank.
                let buffer = bbox_buffer_for_rank rank
                in Inr [lon - buffer, lat - buffer, lon + buffer, lat + buffer]))"

definition parse_search_result :: "pylib \<Rightarrow> raw \<Rightarrow> pyexc + GeocodeItem" where
  "parse_search_result lib r =
     bind_exc (dict_item r ''lat'') (\<lambda>lat_raw.
     bind_exc (py_float lib lat_raw) (\<lambda>lat.
     bind_exc (dict_item r ''lon'') (\<lambda>lon_raw.
     bind_exc (py_float lib lon_raw) (\<lambda>lon.
     bind_exc (search_bbox lib r lat lon) (\<lambda>bbox.
     bind_exc (int_if_set lib r ''osm_id'') (\<lambda>osm_id.
     bind_exc (float_if_set lib r ''importance'') (\<lambda>importance.
     bind_exc (int_if_set lib r ''place_rank'') (\<lambda>place_rank.
       Inr \<lparr>g_lat = lat, g_lon = lon,
            g_display_name = dict_get_default r ''display_name'' (JStr []),
            g_bbox = bbox,
            g_osm_type = dict_get r ''osm_type'',
            g_osm_id = osm_id,
            g_importance = importance,
            g_place_rank = place_rank,
            g_address = dict_get r ''address'',
            g_category = dict_get r ''category'',
            g_place_type = dict_get r ''type''\<rparr>))))))))"

definition parse_reverse_result :: "pylib \<Rightarrow> raw \<Rightarrow> real \<Rightarrow> real \<Rightarrow> pyexc + ReverseResult" where
  "parse_reverse_result lib r lat lon =
     bind_exc (py_float lib (dict_get_default r ''lat'' (JFloat lat))) (\<lambda>result_lat.
     bind_exc (py_float lib (dict_get_default r ''lon'' (JFloat lon))) (\<lambda>result_lon.
     bind_exc (let bbox_raw = dict_get r ''boundingbox''
               in if truthy bbox_raw then convert_bbox lib bbox_raw
                  else Inr [result_lon - 1 / 1000, result_lat - 1 / 1000,
                            result_lon + 1 / 1000, result_lat + 1 / 1000]) (\<lambda>bbox.
     bind_exc (int_if_set lib r ''osm_id'') (\<lambda>osm_id.
     bind_exc (int_if_set lib r ''place_rank'') (\<lambda>place_rank.
       Inr \<lparr>r_lat = result_lat, r_lon = result_lon,
            r_display_name = dict_get_default r ''display_name'' (JStr []),
            r_address = dict_get_default r ''address'' (JDict []),
            r_bbox = bbox,
            r_osm_type = dict_get r ''osm_type'',
            r_osm_id = osm_id,
            r_place_rank = place_rank\<rparr>)))))"

subsection \<open>Primary operations\<close>

text \<open>Every operation takes the calls made on the client so far and returns them
  extended by its own, next to its result or the exception it raises.\<close>

definition geocode ::
  "pylib \<Rightarrow> NominatimClient \<Rightarrow> call list \<Rightarrow> string \<Rightarrow> int \<Rightarrow> string option \<Rightarrow> string option
     \<Rightarrow> (pyexc + GeocodeItem list) \<times> call list" where
  "geocode lib cl calls q limit countrycodes language =
     (case validate_query q of
        Inl e \<Rightarrow> (Inl e, calls)
      | Inr u \<Rightarrow>
          (let c = Search q limit countrycodes None False language
           in case client_search cl calls c of
                Inl e \<Rightarrow> (Inl e, calls @ [c])
              | Inr raw_results \<Rightarrow>
                  if raw_results = [] then (Inl (ValueError (NO_RESULTS q)), calls @ [c])
                  else (map_exc (parse_search_result lib) raw_results, calls @ [c])))"

definition reverse_geocode ::
  "pylib \<Rightarrow> NominatimClient \<Rightarrow> call list \<Rightarrow> real \<Rightarrow> real \<Rightarrow> int \<Rightarrow> string option
     \<Rightarrow> (pyexc + ReverseResult) \<times> call list" where
  "reverse_geocode lib cl calls lat lon zoom language =
     (case validate_coordinates lat lon of
        Inl e \<Rightarrow> (Inl e, calls)
      | Inr u \<Rightarrow>
          (let c = Reverse lat lon zoom language
           in case client_reverse cl calls c of
                Inl e \<Rightarrow> (Inl e, calls @ [c])
              | Inr r \<Rightarrow> (parse_reverse_result lib r lat lon, calls @ [c])))"

definition pad_bbox :: "real list \<Rightarrow> real \<Rightarrow> pyexc + real list" where
  "pad_bbox bbox padding =
     (if 0 < padding
      then (case bbox of
              [b0, b1, b2, b3] \<Rightarrow>
                (let width = b2 - b0; height = b3 - b1
                 in Inr [b0 - width * padding, b1 - height * padding,
                         b2 + width * padding, b3 + height * padding])
            | _ \<Rightarrow> Inl (IndexError (Text ''list index out of range'')))
      else Inr bbox)"

definition bbox_from_place ::
  "pylib \<Rightarrow> NominatimClient \<Rightarrow> call list \<Rightarrow> string \<Rightarrow> real
     \<Rightarrow> (pyexc + BboxResult) \<times> call list" where
  "bbox_from_place lib cl calls q padding =
     (case validate_query q of
        Inl e \<Rightarrow> (Inl e, calls)
      | Inr u \<Rightarrow>
          (let c = Search q 1 None None False None
           in case client_search cl calls c of
                Inl e \<Rightarrow> (Inl e, calls @ [c])
              | Inr [] \<Rightarrow> (Inl (ValueError (NO_RESULTS q)), calls @ [c])
              | Inr (first # others) \<Rightarrow>
                  (bind_exc (parse_search_result lib first) (\<lambda>item.
                   bind_exc (pad_bbox (g_bbox item) padding) (\<lambda>bbox.
                   bind_exc (compute_area_km2 bbox) (\<lambda>area.
                     Inr \<lparr>b_place_name = g_display_name item,
                          b_bbox = bbox,
                          b_center = [g_lon item, g_lat item],
                          b_area_km2 = Some (py_round area 2)\<rparr>))),
                   calls @ [c])))"

subsection \<open>Nearby places\<close>

fun hashable :: "json \<Rightarrow> bool" where
  "hashable (JList xs) = False"
| "hashable (JDict kvs) = False"
| "hashable v = True"

fun num_value :: "json \<Rightarrow> real option" where
  "num_value (JInt n) = Some (of_int n)"
| "num_value (JFloat x) = Some x"
| "num_value (JBool b) = Some (if b then 1 else 0)"
| "num_value v = None"

text \<open>\<open>==\<close> on hashable values: numbers and booleans compare by value.\<close>

definition py_eq :: "json \<Rightarrow> json \<Rightarrow> bool" where
  "py_eq a b =
     (case (num_value a, num_value b) of
        (Some x, Some y) \<Rightarrow> x = y
      | (None, None) \<Rightarrow> a = b
      | _ \<Rightarrow> False)"

text \<open>
  The body both loops of \<open>nearby_places\<close> run on a raw place: the updated
  \<open>seen_names\<close>, and the item to append, \<open>None\<close> for \<open>continue\<close>, or the exception
  raised. The name is added to \<open>seen_names\<close> before anything that can raise after it.
\<close>

definition nearby_entry ::
  "pylib \<Rightarrow> real \<Rightarrow> real \<Rightarrow> json list \<Rightarrow> raw \<Rightarrow> json list \<times> (pyexc + NearbyItem option)" where
  "nearby_entry lib lat lon seen_names r =
     (let name = dict_get_default r ''display_name'' (JStr [])
      in if \<not> truthy name then (seen_names, Inr None)
         else if \<not> hashable name
         then (seen_names, Inl (TypeError (Text ''unhashable type'')))
         else if list_ex (py_eq name) seen_names then (seen_names, Inr None)
         else (seen_names @ [name],
               bind_exc (py_float lib (dict_get_default r ''lat'' (JFloat lat))) (\<lambda>result_lat.
               bind_exc (py_float lib (dict_get_default r ''lon'' (JFloat lon))) (\<lambda>result_lon.
               bind_exc (haversine_distance lat lon result_lat result_lon) (\<lambda>dist.
               bind_exc (float_if_set lib r ''importance'') (\<lambda>importance.
                 Inr (Some \<lparr>n_display_name = name,
                            n_lat = result_lat,
                            n_lon = result_lon,
                            n_distance_m = Some (py_round dist 1),
                            n_place_type = dict_get r ''type'',
                            n_osm_type = dict_get r ''osm_type'',
                            n_importance = importance\<rparr>)))))))"

text \<open>The loop over the four zoom levels: an exception in an iteration, from the client
  or from the body, is swallowed and the loop goes on.\<close>

fun zoom_loop ::
  "pylib \<Rightarrow> NominatimClient \<Rightarrow> real \<Rightarrow> real \<Rightarrow> int list
     \<Rightarrow> json list \<times> NearbyItem list \<times> call list
     \<Rightarrow> json list \<times> NearbyItem list \<times> call list" where
  "zoom_loop lib cl lat lon [] st = st"
| "zoom_loop lib cl lat lon (zoom # zooms) (seen_names, items, calls) =
     (let c = Reverse lat lon zoom None
      in case client_reverse cl calls c of
           Inl e \<Rightarrow> zoom_loop lib cl lat lon zooms (seen_names, items, calls @ [c])
         | Inr r \<Rightarrow>
             (let entry = nearby_entry lib lat lon seen_names r
              in case snd entry of
                   Inl e \<Rightarrow> zoom_loop lib cl lat lon zooms (fst entry, items, calls @ [c])
                 | Inr None \<Rightarrow> zoom_loop lib cl lat lon zooms (fst entry, items, calls @ [c])
                 | Inr (Some item) \<Rightarrow>
                     zoom_loop lib cl lat lon zooms (fst entry, items @ [item], calls @ [c])))"

text \<open>The loop over the viewbox search results sits inside one \<open>try\<close>: an exception
  ends it, and the items appended before stay.\<close>

fun search_loop ::
  "pylib \<Rightarrow> real \<Rightarrow> real \<Rightarrow> raw list \<Rightarrow> json list \<times> NearbyItem list
     \<Rightarrow> json list \<times> NearbyItem list" where
  "search_loop lib lat lon [] st = st"
| "search_loop lib lat lon (r # rs) (seen_names, items) =
     (let entry = nearby_entry lib lat lon seen_names r
      in case snd entry of
           Inl e \<Rightarrow> (fst entry, items)
         | Inr None \<Rightarrow> search_loop lib lat lon rs (fst entry, items)
         | Inr (Some item) \<Rightarrow> search_loop lib lat lon rs (fst entry, items @ [item]))"

text \<open>\<open>[i for i in items if i.place_type in cat_set]\<close>: a list or dict as place type
  cannot be hashed, and the comprehension is outside every \<open>try\<close>.\<close>

fun category_filter :: "string list \<Rightarrow> NearbyItem list \<Rightarrow> pyexc + NearbyItem list" where
  "category_filter cats [] = Inr []"
| "category_filter cats (i # rest) =
     (if \<not> hashable (n_place_type i) then Inl (TypeError (Text ''unhashable type''))
      else (case category_filter cats rest of
              Inl e \<Rightarrow> Inl e
            | Inr kept \<Rightarrow>
                Inr (if (case n_place_type i of JStr s \<Rightarrow> s \<in> set cats | _ \<Rightarrow> False)
                     then i # kept else kept)))"

text \<open>
  The sort key \<open>x.distance_m or float("inf")\<close>, as a pair ordered lexicographically:
  \<open>(False, d)\<close> is the number \<open>d\<close>, \<open>(True, 0)\<close> is infinity. Python's \<open>or\<close> takes its
  right operand when the left is \<open>None\<close> and also when it is \<open>0.0\<close>.
\<close>

definition distance_key :: "NearbyItem \<Rightarrow> bool \<times> real" where
  "distance_key x =
     (case n_distance_m x of
        None \<Rightarrow> (True, 0)
      | Some d \<Rightarrow> if d \<noteq> 0 then (False, d) else (True, 0))"

text \<open>\<open>xs[:n]\<close>; a negative \<open>n\<close> counts from the end.\<close>

definition py_take :: "int \<Rightarrow> 'a list \<Rightarrow> 'a list" where
  "py_take n xs = (if 0 \<le> n then take (nat n) xs else take (length xs - nat (- n)) xs)"

definition nearby_places ::
  "pylib \<Rightarrow> NominatimClient \<Rightarrow> call list \<Rightarrow> real \<Rightarrow> real \<Rightarrow> int \<Rightarrow> string list option
     \<Rightarrow> (pyexc + NearbyItem list) \<times> call list" where
  "nearby_places lib cl calls lat lon limit categories =
     (case validate_coordinates lat lon of
        Inl e \<Rightarrow> (Inl e, calls)
      | Inr u \<Rightarrow>
          (let probed = zoom_loop lib cl lat lon
                 [ZoomLevel_BUILDING, ZoomLevel_STREET, ZoomLevel_SUBURB, ZoomLevel_CITY]
                 ([], [], calls);
               seen_names = fst probed;
               items1 = fst (snd probed);
               calls1 = snd (snd probed);
               buffer = 1 / 100;
               viewbox = str_of_float lib (lon - buffer) @ '','' @ str_of_float lib (lat - buffer)
                 @ '','' @ str_of_float lib (lon + buffer) @ '','' @ str_of_float lib (lat + buffer);
               c = Search (str_of_float lib lat @ '','' @ str_of_float lib lon) 5 None
                     (Some viewbox) True None;
               items2 = (case client_search cl calls1 c of
                           Inl e \<Rightarrow> items1
                         | Inr search_results \<Rightarrow>
                             snd (search_loop lib lat lon search_results (seen_names, items1)));
               filtered = (case categories of
                             None \<Rightarrow> Inr items2
                           | Some cats \<Rightarrow>
                               if cats = [] then Inr items2 else category_filter cats items2)
           in case filtered of
                Inl e \<Rightarrow> (Inl e, calls1 @ [c])
              | Inr items3 \<Rightarrow> (Inr (py_take limit (sort_key distance_key items3)), calls1 @ [c])))"

subsection \<open>Administrative boundaries\<close>

fun substring_of :: "string \<Rightarrow> string \<Rightarrow> bool" where
  "substring_of p [] = (p = [])"
| "substring_of p (c # cs) = (take (length p) (c # cs) = p \<or> substring_of p cs)"

text \<open>\<open>addr_key in address\<close> followed by \<open>address[addr_key]\<close>, on whatever the service
  sent as address: only a dict can be indexed by a string.\<close>

fun boundaries_loop :: "json \<Rightarrow> (string \<times> string) list \<Rightarrow> pyexc + AdminBoundaryItem list" where
  "boundaries_loop address [] = Inr []"
| "boundaries_loop address ((addr_key, level_name) # rest) =
     (case address of
        JDict d \<Rightarrow>
          (case map_of d addr_key of
             None \<Rightarrow> boundaries_loop address rest
           | Some v \<Rightarrow>
               (case boundaries_loop address rest of
                  Inl e \<Rightarrow> Inl e
                | Inr later \<Rightarrow> Inr (\<lparr>a_level = level_name, a_name = v\<rparr> # later)))
      | JStr s \<Rightarrow>
          if substring_of addr_key s
          then Inl (TypeError (Text ''string indices must be integers''))
          else boundaries_loop address rest
      | JList xs \<Rightarrow>
          if list_ex (py_eq (JStr addr_key)) xs
          then Inl (TypeError (Text ''list indices must be integers''))
          else boundaries_loop address rest
      | _ \<Rightarrow> Inl (TypeError (Text ''argument is not iterable'')))"

definition admin_boundaries ::
  "NominatimClient \<Rightarrow> call list \<Rightarrow> real \<Rightarrow> real
     \<Rightarrow> (pyexc + json \<times> AdminBoundaryItem list) \<times> call list" where
  "admin_boundaries cl calls lat lon =
     (case validate_coordinates lat lon of
        Inl e \<Rightarrow> (Inl e, calls)
      | Inr u \<Rightarrow>
          (let c = Reverse lat lon ZoomLevel_BUILDING None
           in case client_reverse cl calls c of
                Inl e \<Rightarrow> (Inl e, calls @ [c])
              | Inr r \<Rightarrow>
                  (let display_name = dict_get_default r ''display_name'' (JStr []);
                       address = dict_get_default r ''address'' (JDict [])
                   in case boundaries_loop address ADMIN_LEVEL_KEYS of
                        Inl e \<Rightarrow> (Inl e, calls @ [c])
                      | Inr boundaries \<Rightarrow> (Inr (display_name, boundaries), calls @ [c]))))"

subsection \<open>Batch operations\<close>

text \<open>The loop of \<open>batch_geocode\<close>: \<open>except Exception as e\<close> turns whatever \<open>geocode\<close>
  raises into the item's error text.\<close>

fun batch_loop ::
  "pylib \<Rightarrow> NominatimClient \<Rightarrow> int \<Rightarrow> string list \<Rightarrow> BatchItem list \<times> call list
     \<Rightarrow> BatchItem list \<times> call list" where
  "batch_loop lib cl limit [] st = st"
| "batch_loop lib cl limit (q # qs) (items, calls) =
     (let done = geocode lib cl calls q limit None None
      in case fst done of
           Inr found \<Rightarrow>
             batch_loop lib cl limit qs
               (items @ [\<lparr>bt_query = q, bt_results = Some found, bt_error = None\<rparr>], snd done)
         | Inl e \<Rightarrow>
             batch_loop lib cl limit qs
               (items @ [\<lparr>bt_query = q, bt_results = None, bt_error = Some (str_exc e)\<rparr>],
                snd done))"

definition batch_geocode ::
  "pylib \<Rightarrow> NominatimClient \<Rightarrow> call list \<Rightarrow> string list \<Rightarrow> int
     \<Rightarrow> (pyexc + BatchItem list) \<times> call list" where
  "batch_geocode lib cl calls queries limit =
     (if queries = [] then (Inl (ValueError BATCH_EMPTY), calls)
      else if BATCH_MAX_QUERIES < length queries
      then (Inl (ValueError (BATCH_TOO_LARGE (length queries) BATCH_MAX_QUERIES)), calls)
      else (let ran = batch_loop lib cl limit queries ([], calls)
            in (Inr (fst ran), snd ran)))"

text \<open>The first loop of \<open>route_waypoints\<close>: an exception from \<open>geocode\<close> leaves the
  function.\<close>

fun resolve_loop ::
  "pylib \<Rightarrow> NominatimClient \<Rightarrow> string list \<Rightarrow> RouteWaypointItem list \<times> call list
     \<Rightarrow> (pyexc + RouteWaypointItem list) \<times> call list" where
  "resolve_loop lib cl [] (resolved, calls) = (Inr resolved, calls)"
| "resolve_loop lib cl (wp # wps) (resolved, calls) =
     (let done = geocode lib cl calls wp 1 None None
      in case fst done of
           Inl e \<Rightarrow> (Inl e, snd done)
         | Inr [] \<Rightarrow> (Inl (IndexError (Text ''list index out of range'')), snd done)
         | Inr (item # others) \<Rightarrow>
             resolve_loop lib cl wps
               (resolved @ [\<lparr>w_name = g_display_name item, w_lat = g_lat item,
                              w_lon = g_lon item, w_bbox = g_bbox item\<rparr>],
                snd done))"

text \<open>The second loop, over \<open>i in range(len(resolved) - 1)\<close>, with \<open>a = resolved[i]\<close> and
  \<open>b = resolved[i + 1]\<close>.\<close>

fun legs_loop ::
  "RouteWaypointItem list \<Rightarrow> RouteLegItem list \<times> real \<Rightarrow> pyexc + RouteLegItem list \<times> real" where
  "legs_loop (a # b # rest) (legs, total_distance) =
     (case haversine_distance (w_lat a) (w_lon a) (w_lat b) (w_lon b) of
        Inl e \<Rightarrow> Inl e
      | Inr d \<Rightarrow>
          legs_loop (b # rest)
            (legs @ [\<lparr>l_from_name = w_name a, l_to_name = w_name b,
                       l_distance_m = py_round d 1\<rparr>],
             total_distance + d))"
| "legs_loop resolved (legs, total_distance) = Inr (legs, total_distance)"

definition route_waypoints ::
  "pylib \<Rightarrow> NominatimClient \<Rightarrow> call list \<Rightarrow> string list
     \<Rightarrow> (pyexc + RouteResult) \<times> call list" where
  "route_waypoints lib cl calls wps =
     (if length wps < 2 then (Inl (ValueError WAYPOINTS_MIN), calls)
      else (let ran = resolve_loop lib cl wps ([], calls)
            in case fst ran of
                 Inl e \<Rightarrow> (Inl e, snd ran)
               | Inr resolved \<Rightarrow>
                   (bind_exc (legs_loop resolved ([], 0)) (\<lambda>walked.
                    bind_exc (bbox_union (map w_bbox resolved)) (\<lambda>combined_bbox.
                      Inr \<lparr>rt_waypoints = resolved,
                           rt_legs = fst walked,
                           rt_total_distance_m = py_round (snd walked) 1,
                           rt_bbox = combined_bbox\<rparr>)),
                    snd ran)))"

section \<open>Notions used in the statements\<close>

text \<open>The calls on the client after \<open>geocode\<close> has been run on each query of a list in
  turn, and the item the batch loop records for a query from the outcome of its
  \<open>geocode\<close>.\<close>

fun calls_after_geocoding ::
  "pylib \<Rightarrow> NominatimClient \<Rightarrow> int \<Rightarrow> string list \<Rightarrow> call list \<Rightarrow> call list" where
  "calls_after_geocoding lib cl limit [] calls = calls"
| "calls_after_geocoding lib cl limit (q # qs) calls =
     calls_after_geocoding lib cl limit qs (snd (geocode lib cl calls q limit None None))"

definition recorded_item :: "string \<Rightarrow> pyexc + GeocodeItem list \<Rightarrow> BatchItem" where
  "recorded_item q outcome =
     (case outcome of
        Inr found \<Rightarrow> \<lparr>bt_query = q, bt_results = Some found, bt_error = None\<rparr>
      | Inl e \<Rightarrow> \<lparr>bt_query = q, bt_results = None, bt_error = Some (str_exc e)\<rparr>)"

fun recorded_items ::
  "pylib \<Rightarrow> NominatimClient \<Rightarrow> int \<Rightarrow> string list \<Rightarrow> call list \<Rightarrow> BatchItem list" where
  "recorded_items lib cl limit [] calls = []"
| "recorded_items lib cl limit (q # qs) calls =
     recorded_item q (fst (geocode lib cl calls q limit None None))
       # recorded_items lib cl limit qs (snd (geocode lib cl calls q limit None None))"

text \<open>
  The retry policy in the words of its description: an outcome is retried when it is a
  response with status 429 or 503; the events of a call whose attempts \<open>k\<close> to \<open>n - 1\<close> are
  retried and whose attempt \<open>n\<close> is the last; and what the call makes of its last outcome.
\<close>

definition retryable :: "outcome \<Rightarrow> bool" where
  "retryable out =
     (case out of Responded r \<Rightarrow> status_code r = 429 \<or> status_code r = 503 | _ \<Rightarrow> False)"

definition retry_events :: "string \<Rightarrow> raw \<Rightarrow> nat \<Rightarrow> nat \<Rightarrow> event list" where
  "retry_events url params k n =
     concat (map (\<lambda>i. [RateLimit, HttpGet url params, Sleep (RETRY_BASE_DELAY * 2 ^ i)]) [k..<n])
       @ [RateLimit, HttpGet url params]"

definition terminal :: "outcome \<Rightarrow> pyexc + json" where
  "terminal out =
     (case out of
        Responded r \<Rightarrow>
          if status_code r = 429 then Inl (RuntimeError RATE_LIMITED)
          else if status_code r \<noteq> 200
          then Inl (RuntimeError (API_ERROR (status_code r) (take 200 (resp_text r))))
          else Inr (resp_json r)
      | ConnectError e \<Rightarrow> Inl (ConnectionError (NETWORK_ERROR e))
      | TimeoutException e \<Rightarrow> Inl (ConnectionError (NETWORK_ERROR e))
      | Raised x \<Rightarrow> Inl x)"

text \<open>What the retry loop leaves behind for an outcome it does not retry.\<close>

definition loop_result :: "outcome \<Rightarrow> pyexc + Response option" where
  "loop_result out =
     (case out of
        Responded r \<Rightarrow> Inr (Some r)
      | ConnectError e \<Rightarrow> Inl (ConnectionError (NETWORK_ERROR e))
      | TimeoutException e \<Rightarrow> Inl (ConnectionError (NETWORK_ERROR e))
      | Raised x \<Rightarrow> Inl x)"

text \<open>The invariant of the cache: unique keys, and no more entries than allowed.\<close>

definition cache_ok :: "cache \<Rightarrow> bool" where
  "cache_ok c \<longleftrightarrow> distinct (map fst c) \<and> length c \<le> CACHE_MAX_SIZE"

text \<open>
  Two texts that differ only in the case of their letters and in their runs of whitespace:
  read side by side, a run of whitespace in one faces a run of whitespace in the other,
  and any other character faces one with the same lower-case form. Two parameter mappings
  that differ only so: the same keys in the same order, string values that differ only so,
  and other values equal.
\<close>

function same_text :: "string \<Rightarrow> string \<Rightarrow> bool" where
  "same_text [] [] = True"
| "same_text (a # as) (b # bs) =
     (if isspace a \<and> isspace b
      then same_text (dropWhile isspace as) (dropWhile isspace bs)
      else \<not> isspace a \<and> \<not> isspace b \<and> lower_char a = lower_char b \<and> same_text as bs)"
| "same_text [] (b # bs) = False"
| "same_text (a # as) [] = False"
  by pat_completeness auto

termination
  by (relation "measure (\<lambda>(s, t). length s)")
     (auto simp: less_Suc_eq_le length_dropWhile_le)

fun same_value :: "json \<Rightarrow> json \<Rightarrow> bool" where
  "same_value (JStr s) (JStr t) = same_text s t"
| "same_value v w = (v = w)"

definition same_params :: "raw \<Rightarrow> raw \<Rightarrow> bool" where
  "same_params p q = list_all2 (\<lambda>kv kw. fst kv = fst kw \<and> same_value (snd kv) (snd kw)) p q"

text \<open>The search that \<open>geocode(wp, limit=1)\<close> issues for a waypoint.\<close>

definition waypoint_search :: "string \<Rightarrow> call" where
  "waypoint_search wp = Search wp 1 None None False None"

text \<open>The waypoint \<open>route_waypoints\<close> makes of the first item \<open>geocode\<close> returns.\<close>

definition resolved_waypoint :: "GeocodeItem \<Rightarrow> RouteWaypointItem" where
  "resolved_waypoint item =
     \<lparr>w_name = g_display_name item, w_lat = g_lat item, w_lon = g_lon item,
      w_bbox = g_bbox item\<rparr>"

section \<open>Example inputs\<close>

text \<open>A library with small parsing tables, and raw places of the service, for the
  worked examples below.\<close>

definition example_lib :: pylib where
  "example_lib =
     \<lparr>float_of_str = map_of [(''0'', 0), (''1'', 1), (''2'', 2), (''3'', 3), (''4'', 4), (''90'', 90),
                             (''10'', 10), (''10.01'', 1001 / 100)],
      int_of_str = map_of [(''0'', 0), (''1'', 1), (''10'', 10), (''30'', 30)],
      str_of_float = (\<lambda>x. ''x''),
      json_dumps_sorted = (\<lambda>d. concat (map (\<lambda>kv. fst kv @ ''='' @ (case snd kv of JStr s \<Rightarrow> s | _ \<Rightarrow> ''#'') @ '';'') d)),
      md5_hexdigest = (\<lambda>s. s)\<rparr>"

definition example_boxed :: raw where
  "example_boxed =
     [(''lat'', JStr ''1''), (''lon'', JStr ''2''),
      (''boundingbox'', JList [JStr ''0'', JStr ''3'', JStr ''1'', JStr ''4''])]"

definition example_ranked :: raw where
  "example_ranked = [(''lat'', JStr ''1''), (''lon'', JStr ''2''), (''place_rank'', JInt 10)]"

definition example_rank_zero :: raw where
  "example_rank_zero = [(''lat'', JStr ''1''), (''lon'', JStr ''2''), (''place_rank'', JInt 0)]"

text \<open>A client whose \<open>search\<close> knows one place, and the raw place it returns.\<close>

definition example_place :: raw where
  "example_place = [(''lat'', JStr ''1''), (''lon'', JStr ''2''), (''display_name'', JStr ''Paris'')]"

definition example_client :: NominatimClient where
  "example_client =
     \<lparr>client_search = (\<lambda>calls c. case c of
          Search q limit cc vb bd lang \<Rightarrow> if q = ''Paris'' then Inr [example_place] else Inr []
        | _ \<Rightarrow> Inr []),
      client_reverse = (\<lambda>calls c. Inr example_place)\<rparr>"

text \<open>The item \<open>_parse_search_result\<close> makes of the example place.\<close>

definition example_item :: GeocodeItem where
  "example_item =
     \<lparr>g_lat = 1, g_lon = 2, g_display_name = JStr ''Paris'',
      g_bbox = [2 - 1 / 100, 1 - 1 / 100, 2 + 1 / 100, 1 + 1 / 100],
      g_osm_type = JNull, g_osm_id = None, g_importance = None, g_place_rank = None,
      g_address = JNull, g_category = JNull, g_place_type = JNull\<rparr>"

text \<open>A service that answers 429 once and then 200 with an empty list; one that always
  answers with the same status; one that answers 500.\<close>

definition send_429_then_200 :: "nat \<Rightarrow> outcome" where
  "send_429_then_200 i =
     (if i = 0 then Responded \<lparr>status_code = 429, resp_text = ''Rate limited'', resp_json = JNull\<rparr>
      else Responded \<lparr>status_code = 200, resp_text = ''[]'', resp_json = JList []\<rparr>)"

definition send_always :: "int \<Rightarrow> nat \<Rightarrow> outcome" where
  "send_always status i = Responded \<lparr>status_code = status, resp_text = ''busy'', resp_json = JNull\<rparr>"

definition send_500 :: "nat \<Rightarrow> outcome" where
  "send_500 i = Responded \<lparr>status_code = 500, resp_text = ''Internal Server Error'', resp_json = JNull\<rparr>"

text \<open>A run of puts of \<open>n\<close> distinct keys \<open>k\<close>, \<open>kk\<close>, \<open>kkk\<close>, ... at time 0.\<close>

definition example_key :: "nat \<Rightarrow> string" where
  "example_key i = replicate (Suc i) CHR ''k''"

definition example_fill :: "nat \<Rightarrow> cache_op list" where
  "example_fill n = map (\<lambda>i. CachePut 0 (example_key i) JNull) [0..<n]"

text \<open>
  Two places on the equator, 0.01 degrees of longitude apart, and a client that knows
  them: \<open>reverse\<close> returns the first at building zoom and the second at every wider zoom,
  and \<open>search\<close> finds each by its name and nothing else.
\<close>

definition place_here :: raw where
  "place_here = [(''lat'', JStr ''0''), (''lon'', JStr ''10''), (''display_name'', JStr ''Here'')]"

definition place_city :: raw where
  "place_city =
     [(''lat'', JStr ''0''), (''lon'', JStr ''10.01''), (''display_name'', JStr ''City'')]"

definition equator_client :: NominatimClient where
  "equator_client =
     \<lparr>client_search = (\<lambda>calls c. case c of
          Search q limit cc vb bd lang \<Rightarrow>
            if q = ''Here'' then Inr [place_here]
            else if q = ''City'' then Inr [place_city] else Inr []
        | _ \<Rightarrow> Inr []),
      client_reverse = (\<lambda>calls c. case c of
          Reverse lat lon zoom lang \<Rightarrow> if zoom = 18 then Inr place_here else Inr place_city
        | _ \<Rightarrow> Inr place_here)\<rparr>"

text \<open>The nearby items the two places make for the query point (0, 10).\<close>

definition nearby_here :: NearbyItem where
  "nearby_here =
     \<lparr>n_display_name = JStr ''Here'', n_lat = 0, n_lon = 10, n_distance_m = Some 0,
      n_place_type = JNull, n_osm_type = JNull, n_importance = None\<rparr>"

definition nearby_city :: NearbyItem where
  "nearby_city =
     \<lparr>n_display_name = JStr ''City'', n_lat = 0, n_lon = 1001 / 100,
      n_distance_m = Some (py_round (6371000 * radians (1 / 100)) 1),
      n_place_type = JNull, n_osm_type = JNull, n_importance = None\<rparr>"

text \<open>What \<open>geocode\<close> makes of the two places, and the route between them.\<close>

definition item_here :: GeocodeItem where
  "item_here =
     \<lparr>g_lat = 0, g_lon = 10, g_display_name = JStr ''Here'',
      g_bbox = [10 - 1 / 100, 0 - 1 / 100, 10 + 1 / 100, 0 + 1 / 100],
      g_osm_type = JNull, g_osm_id = None, g_importance = None, g_place_rank = None,
      g_address = JNull, g_category = JNull, g_place_type = JNull\<rparr>"

definition item_city :: GeocodeItem where
  "item_city =
     \<lparr>g_lat = 0, g_lon = 1001 / 100, g_display_name = JStr ''City'',
      g_bbox = [1001 / 100 - 1 / 100, 0 - 1 / 100, 1001 / 100 + 1 / 100, 0 + 1 / 100],
      g_osm_type = JNull, g_osm_id = None, g_importance = None, g_place_rank = None,
      g_address = JNull, g_category = JNull, g_place_type = JNull\<rparr>"

definition example_route :: RouteResult where
  "example_route =
     \<lparr>rt_waypoints = [resolved_waypoint item_here, resolved_waypoint item_city],
      rt_legs = [\<lparr>l_from_name = JStr ''Here'', l_to_name = JStr ''City'',
                 l_distance_m = py_round (6371000 * radians (1 / 100)) 1\<rparr>],
      rt_total_distance_m = py_round (6371000 * radians (1 / 100)) 1,
      rt_bbox = [10 - 1 / 100, 0 - 1 / 100, 1001 / 100 + 1 / 100, 0 + 1 / 100]\<rparr>"

section \<open>Properties\<close>

subsection \<open>Parsing a search result\<close>

lemma bbox_buffer_table:
  "bbox_buffer_for_rank rank =
     (case rank of
        None \<Rightarrow> 1 / 100
      | Some k \<Rightarrow>
          if 0 \<le> k \<and> k \<le> 4 then 10
          else if 5 \<le> k \<and> k \<le> 8 then 2
          else if 9 \<le> k \<and> k \<le> 12 then 1 / 2
          else if 13 \<le> k \<and> k \<le> 16 then 1 / 10
          else if 17 \<le> k \<and> k \<le> 20 then 1 / 100
          else if 21 \<le> k \<and> k \<le> 26 then 5 / 1000
          else if 27 \<le> k \<and> k \<le> 30 then 1 / 1000
          else 1 / 100)"
  by (simp add: bbox_buffer_for_rank_def PLACE_RANK_BUFFERS_def DEFAULT_BBOX_BUFFER_def
        split: option.split)

lemma bind_exc_Inr:
  "bind_exc m f = Inr y \<longleftrightarrow> (\<exists>x. m = Inr x \<and> f x = Inr y)"
  by (cases m) (simp_all add: bind_exc_def)

lemma convert_bbox_Inr:
  assumes "convert_bbox lib v = Inr b"
  shows "\<exists>xs min_lat max_lat min_lon max_lon.
           py_iter v = Inr xs \<and> map_exc (py_float lib) xs = Inr [min_lat, max_lat, min_lon, max_lon]
           \<and> b = [min_lon, min_lat, max_lon, max_lat]"
  using assms
  by (auto simp: convert_bbox_def split: sum.splits list.splits)

lemma search_bbox_Inr:
  assumes "search_bbox lib r lat lon = Inr b"
  shows "(truthy (dict_get r ''boundingbox'') \<longrightarrow> convert_bbox lib (dict_get r ''boundingbox'') = Inr b)
       \<and> (\<not> truthy (dict_get r ''boundingbox'') \<longrightarrow>
            (\<exists>rank. int_if_set lib r ''place_rank'' = Inr rank
               \<and> b = [lon - bbox_buffer_for_rank rank, lat - bbox_buffer_for_rank rank,
                      lon + bbox_buffer_for_rank rank, lat + bbox_buffer_for_rank rank]))"
  using assms
  by (auto simp: search_bbox_def Let_def bind_exc_Inr split: if_splits)

lemma parse_search_result_Inr:
  assumes "parse_search_result lib r = Inr item"
  shows "search_bbox lib r (g_lat item) (g_lon item) = Inr (g_bbox item)
       \<and> int_if_set lib r ''place_rank'' = Inr (g_place_rank item)"
  using assms
  by (auto simp: parse_search_result_def bind_exc_Inr)

text \<open>
  What \<open>_parse_search_result\<close> does about the bbox whenever it returns an item: a truthy
  \<open>boundingbox\<close>, read as floats in the order \<open>[min_lat, max_lat, min_lon, max_lon]\<close>, becomes
  \<open>[min_lon, min_lat, max_lon, max_lat]\<close>; otherwise the bbox is the square around the
  item's point with half-width \<open>bbox_buffer_for_rank\<close> of the item's place rank, which is
  the rank the code reads from the raw result. The table of \<open>bbox_buffer_for_rank\<close> is the
  one of \<open>PLACE_RANK_BUFFERS\<close>.
\<close>

lemma parse_search_result_bbox:
  assumes "parse_search_result lib r = Inr item"
  shows "(truthy (dict_get r ''boundingbox'') \<longrightarrow>
            (\<exists>xs min_lat max_lat min_lon max_lon.
               py_iter (dict_get r ''boundingbox'') = Inr xs
               \<and> map_exc (py_float lib) xs = Inr [min_lat, max_lat, min_lon, max_lon]
               \<and> g_bbox item = [min_lon, min_lat, max_lon, max_lat]))
       \<and> (\<not> truthy (dict_get r ''boundingbox'') \<longrightarrow>
            g_bbox item =
              [g_lon item - bbox_buffer_for_rank (g_place_rank item),
               g_lat item - bbox_buffer_for_rank (g_place_rank item),
               g_lon item + bbox_buffer_for_rank (g_place_rank item),
               g_lat item + bbox_buffer_for_rank (g_place_rank item)])
       \<and> (\<forall>rank. bbox_buffer_for_rank rank =
            (case rank of
               None \<Rightarrow> 1 / 100
             | Some k \<Rightarrow>
                 if 0 \<le> k \<and> k \<le> 4 then 10
                 else if 5 \<le> k \<and> k \<le> 8 then 2
                 else if 9 \<le> k \<and> k \<le> 12 then 1 / 2
                 else if 13 \<le> k \<and> k \<le> 16 then 1 / 10
                 else if 17 \<le> k \<and> k \<le> 20 then 1 / 100
                 else if 21 \<le> k \<and> k \<le> 26 then 5 / 1000
                 else if 27 \<le> k \<and> k \<le> 30 then 1 / 1000
                 else 1 / 100))
       \<and> int_if_set lib r ''place_rank'' = Inr (g_place_rank item)"
proof (intro conjI impI allI)
  from parse_search_result_Inr [OF assms]
  have b: "search_bbox lib r (g_lat item) (g_lon item) = Inr (g_bbox item)"
    and p: "int_if_set lib r ''place_rank'' = Inr (g_place_rank item)"
    by simp_all
  from p show "int_if_set lib r ''place_rank'' = Inr (g_place_rank item)" .
  {
    assume "truthy (dict_get r ''boundingbox'')"
    with search_bbox_Inr [OF b]
    have "convert_bbox lib (dict_get r ''boundingbox'') = Inr (g_bbox item)" by simp
    from convert_bbox_Inr [OF this]
    show "\<exists>xs min_lat max_lat min_lon max_lon.
            py_iter (dict_get r ''boundingbox'') = Inr xs
            \<and> map_exc (py_float lib) xs = Inr [min_lat, max_lat, min_lon, max_lon]
            \<and> g_bbox item = [min_lon, min_lat, max_lon, max_lat]" .
  }
  {
    assume "\<not> truthy (dict_get r ''boundingbox'')"
    with search_bbox_Inr [OF b] obtain rank where
      "int_if_set lib r ''place_rank'' = Inr rank"
      and g: "g_bbox item =
        [g_lon item - bbox_buffer_for_rank rank, g_lat item - bbox_buffer_for_rank rank,
         g_lon item + bbox_buffer_for_rank rank, g_lat item + bbox_buffer_for_rank rank]"
      by blast
    with p have "rank = g_place_rank item" by simp
    with g show "g_bbox item =
              [g_lon item - bbox_buffer_for_rank (g_place_rank item),
               g_lat item - bbox_buffer_for_rank (g_place_rank item),
               g_lon item + bbox_buffer_for_rank (g_place_rank item),
               g_lat item + bbox_buffer_for_rank (g_place_rank item)]" by simp
  }
  fix rank
  show "bbox_buffer_for_rank rank =
            (case rank of
               None \<Rightarrow> 1 / 100
             | Some k \<Rightarrow>
                 if 0 \<le> k \<and> k \<le> 4 then 10
                 else if 5 \<le> k \<and> k \<le> 8 then 2
                 else if 9 \<le> k \<and> k \<le> 12 then 1 / 2
                 else if 13 \<le> k \<and> k \<le> 16 then 1 / 10
                 else if 17 \<le> k \<and> k \<le> 20 then 1 / 100
                 else if 21 \<le> k \<and> k \<le> 26 then 5 / 1000
                 else if 27 \<le> k \<and> k \<le> 30 then 1 / 1000
                 else 1 / 100)"
    by (rule bbox_buffer_table)
qed

lemma parse_example_ranked:
  "parse_search_result example_lib example_ranked =
     Inr \<lparr>g_lat = 1, g_lon = 2, g_display_name = JStr [], g_bbox = [3 / 2, 1 / 2, 5 / 2, 3 / 2],
          g_osm_type = JNull, g_osm_id = None, g_importance = None, g_place_rank = Some 10,
          g_address = JNull, g_category = JNull, g_place_type = JNull\<rparr>"
  by (simp add: parse_search_result_def bind_exc_def example_ranked_def example_lib_def
        dict_item_def dict_get_def dict_get_default_def search_bbox_def int_if_set_def
        float_if_set_def bbox_buffer_table)

lemma parse_example_boxed:
  "parse_search_result example_lib example_boxed =
     Inr \<lparr>g_lat = 1, g_lon = 2, g_display_name = JStr [], g_bbox = [1, 0, 4, 3],
          g_osm_type = JNull, g_osm_id = None, g_importance = None, g_place_rank = None,
          g_address = JNull, g_category = JNull, g_place_type = JNull\<rparr>"
  by (simp add: parse_search_result_def bind_exc_def example_boxed_def example_lib_def
        dict_item_def dict_get_def dict_get_default_def search_bbox_def int_if_set_def
        float_if_set_def convert_bbox_def)

text \<open>The lemma at a place with a rank and no box, and at a place with a box.\<close>

lemma parse_search_result_bbox_examples:
  "g_bbox \<lparr>g_lat = 1, g_lon = 2, g_display_name = JStr [], g_bbox = [3 / 2, 1 / 2, 5 / 2, 3 / 2],
          g_osm_type = JNull, g_osm_id = None, g_importance = None, g_place_rank = Some 10,
          g_address = JNull, g_category = JNull, g_place_type = JNull\<rparr>
     = [2 - 1 / 2, 1 - 1 / 2, 2 + 1 / 2, 1 + 1 / 2]
   \<and> (\<exists>xs min_lat max_lat min_lon max_lon.
          py_iter (dict_get example_boxed ''boundingbox'') = Inr xs
          \<and> map_exc (py_float example_lib) xs = Inr [min_lat, max_lat, min_lon, max_lon]
          \<and> [1, 0, 4, 3] = [min_lon, min_lat, max_lon, max_lat])"
  using parse_search_result_bbox [OF parse_example_ranked]
    parse_search_result_bbox [OF parse_example_boxed]
  by (simp add: example_ranked_def example_boxed_def dict_get_def)

lemma int_if_set_nonzero:
  "dict_get r ''place_rank'' = JInt k \<Longrightarrow> k \<noteq> 0 \<Longrightarrow> int_if_set lib r ''place_rank'' = Inr (Some k)"
  by (simp add: int_if_set_def)

lemma int_if_set_zero:
  "dict_get r ''place_rank'' = JInt 0 \<Longrightarrow> int_if_set lib r ''place_rank'' = Inr None"
  by (simp add: int_if_set_def)

text \<open>With an integer rank other than 0 and no box, the half-width is the one the table
  gives for that rank.\<close>

lemma parse_search_result_rank_nonzero:
  assumes "parse_search_result lib r = Inr item"
    and "\<not> truthy (dict_get r ''boundingbox'')"
    and "dict_get r ''place_rank'' = JInt k" and "k \<noteq> 0"
  shows "g_place_rank item = Some k
       \<and> g_bbox item =
           [g_lon item - bbox_buffer_for_rank (Some k), g_lat item - bbox_buffer_for_rank (Some k),
            g_lon item + bbox_buffer_for_rank (Some k), g_lat item + bbox_buffer_for_rank (Some k)]"
proof -
  from parse_search_result_Inr [OF assms(1)] int_if_set_nonzero [OF assms(3,4), of lib]
  have rank: "g_place_rank item = Some k"
    and "search_bbox lib r (g_lat item) (g_lon item) = Inr (g_bbox item)"
    by simp_all
  from search_bbox_Inr [OF this(2)] assms(2) int_if_set_nonzero [OF assms(3,4), of lib] rank
  show ?thesis by auto
qed

text \<open>
  Claim C8 fails on the code for a place of rank 0 that carries no bounding box. The
  claim's table gives the ranks 0 to 4 the half-width 10. The code reads the rank with
  \<open>int(raw["place_rank"]) if raw.get("place_rank") else None\<close>, and the integer 0 is falsy:
  the rank is taken for absent, the item gets no place rank, and the square around its
  point has the default half-width 0.01 instead of 10.
\<close>

theorem parse_search_result_rank_zero:
  "dict_get example_rank_zero ''boundingbox'' = JNull
   \<and> dict_get example_rank_zero ''place_rank'' = JInt 0
   \<and> bbox_buffer_for_rank (Some 0) = 10
   \<and> parse_search_result example_lib example_rank_zero =
       Inr \<lparr>g_lat = 1, g_lon = 2, g_display_name = JStr [],
            g_bbox = [2 - 1 / 100, 1 - 1 / 100, 2 + 1 / 100, 1 + 1 / 100],
            g_osm_type = JNull, g_osm_id = None, g_importance = None, g_place_rank = None,
            g_address = JNull, g_category = JNull, g_place_type = JNull\<rparr>"
  by (simp add: parse_search_result_def bind_exc_def example_rank_zero_def example_lib_def
        dict_item_def dict_get_def dict_get_default_def search_bbox_def int_if_set_def
        float_if_set_def bbox_buffer_table Let_def)

subsection \<open>Batch geocoding\<close>

lemma map_exc_length: "map_exc f xs = Inr ys \<Longrightarrow> length ys = length xs"
proof (induction xs arbitrary: ys)
  case Nil
  then show ?case by simp
next
  case (Cons x xs)
  then show ?case by (auto split: sum.splits)
qed

lemma geocode_nonempty:
  assumes "fst (geocode lib cl calls q limit cc lang) = Inr found"
  shows "found \<noteq> []"
proof -
  from assms obtain raw_results where "raw_results \<noteq> []"
    and "map_exc (parse_search_result lib) raw_results = Inr found"
    by (auto simp: geocode_def Let_def split: sum.splits if_splits)
  then show ?thesis using map_exc_length by fastforce
qed

lemma batch_loop_recorded:
  "batch_loop lib cl limit qs (items, calls) =
     (items @ recorded_items lib cl limit qs calls, calls_after_geocoding lib cl limit qs calls)"
proof (induction qs arbitrary: items calls)
  case Nil
  then show ?case by simp
next
  case (Cons q qs)
  then show ?case
    by (cases "fst (geocode lib cl calls q limit None None)")
       (simp_all add: Let_def recorded_item_def)
qed

lemma length_recorded_items: "length (recorded_items lib cl limit qs calls) = length qs"
  by (induction qs arbitrary: calls) simp_all

lemma recorded_items_nth:
  "i < length qs \<Longrightarrow>
   recorded_items lib cl limit qs calls ! i =
     recorded_item (qs ! i)
       (fst (geocode lib cl (calls_after_geocoding lib cl limit (take i qs) calls) (qs ! i)
               limit None None))"
proof (induction qs arbitrary: calls i)
  case Nil
  then show ?case by simp
next
  case (Cons q qs)
  then show ?case by (cases i) simp_all
qed

lemma batch_geocode_items:
  assumes "queries \<noteq> []" and "length queries \<le> BATCH_MAX_QUERIES"
  shows "batch_geocode lib cl calls queries limit =
           (Inr (recorded_items lib cl limit queries calls),
            calls_after_geocoding lib cl limit queries calls)"
  using assms by (simp add: batch_geocode_def batch_loop_recorded Let_def)

text \<open>
  Claim C5. \<open>batch_geocode\<close> raises the validation error for an empty list of queries and
  for more than 50 queries, before any call on the client. For 1 to 50 queries it returns
  one item per query, in input order; in each item exactly one of results and error is set:
  the results, when \<open>geocode\<close> of that query, run after the queries before it, returned
  them, and the text of the exception when it raised. So no failure of one query makes the
  call raise or leaves a later query out.
\<close>

theorem batch_geocode_partial_failure:
  "(queries = [] \<longrightarrow> batch_geocode lib cl calls queries limit = (Inl (ValueError BATCH_EMPTY), calls))
 \<and> (50 < length queries \<longrightarrow>
       batch_geocode lib cl calls queries limit =
         (Inl (ValueError (BATCH_TOO_LARGE (length queries) 50)), calls))
 \<and> (queries \<noteq> [] \<and> length queries \<le> 50 \<longrightarrow>
       (\<exists>items. fst (batch_geocode lib cl calls queries limit) = Inr items
          \<and> length items = length queries
          \<and> (\<forall>i<length queries.
                bt_query (items ! i) = queries ! i
              \<and> (bt_results (items ! i) = None) \<noteq> (bt_error (items ! i) = None)
              \<and> (case fst (geocode lib cl
                             (calls_after_geocoding lib cl limit (take i queries) calls)
                             (queries ! i) limit None None) of
                    Inr found \<Rightarrow> bt_results (items ! i) = Some found \<and> bt_error (items ! i) = None
                  | Inl e \<Rightarrow> bt_results (items ! i) = None
                             \<and> bt_error (items ! i) = Some (str_exc e)))))"
proof (intro conjI impI)
  assume "queries = []"
  then show "batch_geocode lib cl calls queries limit = (Inl (ValueError BATCH_EMPTY), calls)"
    by (simp add: batch_geocode_def)
next
  assume "50 < length queries"
  then show "batch_geocode lib cl calls queries limit =
         (Inl (ValueError (BATCH_TOO_LARGE (length queries) 50)), calls)"
    by (auto simp: batch_geocode_def BATCH_MAX_QUERIES_def)
next
  assume a: "queries \<noteq> [] \<and> length queries \<le> 50"
  then have eq: "fst (batch_geocode lib cl calls queries limit) =
                   Inr (recorded_items lib cl limit queries calls)"
    using batch_geocode_items [of queries lib cl calls limit]
    by (simp add: BATCH_MAX_QUERIES_def)
  have each: "bt_query (recorded_items lib cl limit queries calls ! i) = queries ! i
      \<and> (bt_results (recorded_items lib cl limit queries calls ! i) = None)
          \<noteq> (bt_error (recorded_items lib cl limit queries calls ! i) = None)
      \<and> (case fst (geocode lib cl
                     (calls_after_geocoding lib cl limit (take i queries) calls)
                     (queries ! i) limit None None) of
            Inr found \<Rightarrow> bt_results (recorded_items lib cl limit queries calls ! i) = Some found
                         \<and> bt_error (recorded_items lib cl limit queries calls ! i) = None
          | Inl e \<Rightarrow> bt_results (recorded_items lib cl limit queries calls ! i) = None
                     \<and> bt_error (recorded_items lib cl limit queries calls ! i) = Some (str_exc e))"
    if "i < length queries" for i
    using recorded_items_nth [OF that, of lib cl limit calls]
    by (simp add: recorded_item_def split: sum.splits)
  show "\<exists>items. fst (batch_geocode lib cl calls queries limit) = Inr items
          \<and> length items = length queries
          \<and> (\<forall>i<length queries.
                bt_query (items ! i) = queries ! i
              \<and> (bt_results (items ! i) = None) \<noteq> (bt_error (items ! i) = None)
              \<and> (case fst (geocode lib cl
                             (calls_after_geocoding lib cl limit (take i queries) calls)
                             (queries ! i) limit None None) of
                    Inr found \<Rightarrow> bt_results (items ! i) = Some found \<and> bt_error (items ! i) = None
                  | Inl e \<Rightarrow> bt_results (items ! i) = None
                             \<and> bt_error (items ! i) = Some (str_exc e)))"
    using eq each length_recorded_items [of lib cl limit queries calls] by blast
qed

text \<open>
  Claim C10. In every item returned by \<open>batch_geocode\<close> whose error is unset, the results
  are a non-empty list: \<open>geocode\<close> raises on an empty result sequence, so a query with no
  result is recorded as an error.
\<close>

theorem batch_results_nonempty:
  assumes "fst (batch_geocode lib cl calls queries limit) = Inr items"
    and "item \<in> set items" and "bt_error item = None"
  shows "\<exists>found. bt_results item = Some found \<and> found \<noteq> []"
proof -
  from assms(1) have q: "queries \<noteq> []" "length queries \<le> BATCH_MAX_QUERIES"
    by (auto simp: batch_geocode_def split: if_splits)
  with assms(1) have items: "items = recorded_items lib cl limit queries calls"
    by (simp add: batch_geocode_items)
  from assms(2) obtain i where i: "i < length items" "items ! i = item"
    by (auto simp: in_set_conv_nth)
  then have il: "i < length queries" by (simp add: items length_recorded_items)
  let ?out = "fst (geocode lib cl (calls_after_geocoding lib cl limit (take i queries) calls)
                     (queries ! i) limit None None)"
  have it: "item = recorded_item (queries ! i) ?out"
    using recorded_items_nth [OF il, of lib cl limit calls] i items by simp
  show ?thesis
  proof (cases ?out)
    case (Inl e)
    with it assms(3) show ?thesis by (simp add: recorded_item_def)
  next
    case (Inr found)
    with geocode_nonempty have "found \<noteq> []" by blast
    with it Inr show ?thesis by (simp add: recorded_item_def)
  qed
qed

lemma parse_example_place: "parse_search_result example_lib example_place = Inr example_item"
  by (simp add: parse_search_result_def bind_exc_def example_place_def example_lib_def
        dict_item_def dict_get_def dict_get_default_def search_bbox_def int_if_set_def
        float_if_set_def bbox_buffer_for_rank_def DEFAULT_BBOX_BUFFER_def example_item_def)

lemma validate_query_Paris: "validate_query ''Paris'' = Inr ()"
  by (simp add: validate_query_def py_strip_def isspace_def)

lemma validate_query_Nowhere: "validate_query ''Nowhere'' = Inr ()"
  by (simp add: validate_query_def py_strip_def isspace_def)

lemma geocode_Paris:
  "geocode example_lib example_client calls ''Paris'' limit None None =
     (Inr [example_item], calls @ [Search ''Paris'' limit None None False None])"
  by (simp add: geocode_def validate_query_Paris example_client_def parse_example_place)

lemma geocode_Nowhere:
  "geocode example_lib example_client calls ''Nowhere'' limit None None =
     (Inl (ValueError (NO_RESULTS ''Nowhere'')),
      calls @ [Search ''Nowhere'' limit None None False None])"
  by (simp add: geocode_def validate_query_Nowhere example_client_def)

text \<open>Two queries, the first found and the second without result.\<close>

theorem batch_geocode_partial_failure_witness:
  "\<exists>items. fst (batch_geocode example_lib example_client [] [''Paris'', ''Nowhere''] 1) = Inr items
      \<and> length items = 2
      \<and> bt_results (items ! 0) = Some [example_item] \<and> bt_error (items ! 0) = None
      \<and> bt_results (items ! 1) = None \<and> bt_error (items ! 1) = Some (NO_RESULTS ''Nowhere'')"
proof -
  from batch_geocode_partial_failure [of "[''Paris'', ''Nowhere'']" example_lib example_client "[]" 1]
  obtain items where
    r: "fst (batch_geocode example_lib example_client [] [''Paris'', ''Nowhere''] 1) = Inr items"
    and l: "length items = 2"
    and e: "\<forall>i<2. (case fst (geocode example_lib example_client
                             (calls_after_geocoding example_lib example_client 1
                                (take i [''Paris'', ''Nowhere'']) [])
                             ([''Paris'', ''Nowhere''] ! i) 1 None None) of
                    Inr found \<Rightarrow> bt_results (items ! i) = Some found \<and> bt_error (items ! i) = None
                  | Inl e \<Rightarrow> bt_results (items ! i) = None
                             \<and> bt_error (items ! i) = Some (str_exc e))"
    by auto
  from e [rule_format, of 0]
  have "bt_results (items ! 0) = Some [example_item] \<and> bt_error (items ! 0) = None"
    by (simp add: geocode_Paris)
  moreover from e [rule_format, of 1] have "bt_results (items ! 1) = None
      \<and> bt_error (items ! 1) = Some (NO_RESULTS ''Nowhere'')"
    by (simp add: geocode_Paris geocode_Nowhere)
  ultimately show ?thesis using r l by blast
qed

lemma batch_Paris:
  "fst (batch_geocode example_lib example_client [] [''Paris''] 1) =
     Inr [\<lparr>bt_query = ''Paris'', bt_results = Some [example_item], bt_error = None\<rparr>]"
  by (simp add: batch_geocode_def BATCH_MAX_QUERIES_def geocode_Paris Let_def)

theorem batch_results_nonempty_witness:
  "fst (batch_geocode example_lib example_client [] [''Paris''] 1) =
     Inr [\<lparr>bt_query = ''Paris'', bt_results = Some [example_item], bt_error = None\<rparr>]
   \<and> (\<exists>found. bt_results \<lparr>bt_query = ''Paris'', bt_results = Some [example_item], bt_error = None\<rparr>
                 = Some found \<and> found \<noteq> [])"
  using batch_results_nonempty [OF batch_Paris, of
      "\<lparr>bt_query = ''Paris'', bt_results = Some [example_item], bt_error = None\<rparr>"]
    batch_Paris
  by simp

subsection \<open>The request executor\<close>

lemma retryable_iff:
  "retryable out \<longleftrightarrow> (\<exists>r. out = Responded r \<and> status_code r \<in> set RETRYABLE_STATUS_CODES)"
  by (cases out) (auto simp: retryable_def RETRYABLE_STATUS_CODES_def)

lemma attempt_loop_last:
  assumes "k \<le> MAX_RETRIES" and "k = MAX_RETRIES \<or> \<not> retryable (send k)"
  shows "attempt_loop send url params [k..<Suc MAX_RETRIES] resp =
           (loop_result (send k), [RateLimit, HttpGet url params])"
proof -
  from assms(1) have u: "[k..<Suc MAX_RETRIES] = k # [Suc k..<Suc MAX_RETRIES]"
    by (simp add: upt_conv_Cons)
  from assms(2) show ?thesis
    unfolding u by (cases "send k") (auto simp: loop_result_def retryable_iff)
qed

lemma attempt_loop_retry:
  assumes "k < MAX_RETRIES" and "retryable (send k)"
  shows "attempt_loop send url params [k..<Suc MAX_RETRIES] resp =
           (fst (attempt_loop send url params [Suc k..<Suc MAX_RETRIES]
                   (case send k of Responded r \<Rightarrow> Some r | _ \<Rightarrow> None)),
            [RateLimit, HttpGet url params, Sleep (RETRY_BASE_DELAY * 2 ^ k)]
              @ snd (attempt_loop send url params [Suc k..<Suc MAX_RETRIES]
                   (case send k of Responded r \<Rightarrow> Some r | _ \<Rightarrow> None)))"
proof -
  from assms(1) have u: "[k..<Suc MAX_RETRIES] = k # [Suc k..<Suc MAX_RETRIES]"
    by (simp add: upt_conv_Cons)
  from assms show ?thesis
    unfolding u by (cases "send k") (auto simp: retryable_iff Let_def)
qed

lemma retry_events_step:
  "k < n \<Longrightarrow>
   retry_events url params k n =
     [RateLimit, HttpGet url params, Sleep (RETRY_BASE_DELAY * 2 ^ k)]
       @ retry_events url params (Suc k) n"
  by (simp add: retry_events_def upt_conv_Cons)

lemma attempt_loop_runs:
  assumes "k \<le> MAX_RETRIES"
  shows "\<exists>n. k \<le> n \<and> n \<le> MAX_RETRIES
           \<and> (\<forall>i. k \<le> i \<and> i < n \<longrightarrow> retryable (send i))
           \<and> (n = MAX_RETRIES \<or> \<not> retryable (send n))
           \<and> attempt_loop send url params [k..<Suc MAX_RETRIES] resp =
                (loop_result (send n), retry_events url params k n)"
  using assms
proof (induction "MAX_RETRIES - k" arbitrary: k resp)
  case 0
  then have "k = MAX_RETRIES" by simp
  then show ?case
    using attempt_loop_last [of k send url params resp]
    by (auto simp: retry_events_def intro!: exI [of _ k])
next
  case (Suc m)
  then have lt: "k < MAX_RETRIES" by simp
  show ?case
  proof (cases "retryable (send k)")
    case False
    then show ?thesis
      using attempt_loop_last [of k send url params resp] lt
      by (auto simp: retry_events_def intro!: exI [of _ k])
  next
    case True
    let ?resp = "case send k of Responded r \<Rightarrow> Some r | _ \<Rightarrow> None"
    from Suc lt have "m = MAX_RETRIES - Suc k" "Suc k \<le> MAX_RETRIES" by simp_all
    from Suc.hyps(1) [OF this, of ?resp] obtain n where n:
      "Suc k \<le> n" "n \<le> MAX_RETRIES"
      "\<forall>i. Suc k \<le> i \<and> i < n \<longrightarrow> retryable (send i)"
      "n = MAX_RETRIES \<or> \<not> retryable (send n)"
      "attempt_loop send url params [Suc k..<Suc MAX_RETRIES] ?resp =
         (loop_result (send n), retry_events url params (Suc k) n)"
      by blast
    have all: "\<forall>i. k \<le> i \<and> i < n \<longrightarrow> retryable (send i)"
      using n(3) True by (metis Suc_leI le_neq_implies_less)
    have "attempt_loop send url params [k..<Suc MAX_RETRIES] resp =
            (loop_result (send n), retry_events url params k n)"
      using attempt_loop_retry [of k send url params resp] lt True n(5) n(1)
      by (simp add: retry_events_step)
    with n all show ?thesis
      by (intro exI [of _ n]) simp
  qed
qed

lemma cache_put_returns: "\<exists>c'. cache_put now key d c = Inr c'"
  by (cases c) (simp_all add: cache_put_def od_popitem_first_def CACHE_MAX_SIZE_def)

lemma fetch_terminal:
  assumes "attempt_loop send (base_url @ ''/'' @ endpoint) params [0..<Suc MAX_RETRIES] None =
             (loop_result out, evs)"
  shows "fst (fetch base_url send now_put endpoint key params c1) = terminal out
       \<and> snd (snd (fetch base_url send now_put endpoint key params c1)) = evs"
proof (cases out)
  case (Responded r)
  obtain c2 where "cache_put now_put key (resp_json r) c1 = Inr c2"
    using cache_put_returns by blast
  with assms Responded show ?thesis
    by (simp add: fetch_def Let_def loop_result_def terminal_def)
qed (use assms in \<open>simp_all add: fetch_def Let_def loop_result_def terminal_def\<close>)

text \<open>
  Claim C1. Every call of \<open>_request\<close> that misses the cache (or finds \<open>None\<close> cached,
  which it takes for a miss) goes through some number
  \<open>n\<close> of retried attempts, at most \<open>MAX_RETRIES\<close>: the attempts \<open>0\<close> to \<open>n - 1\<close> were answered
  with status 429 or 503, each followed by a sleep of \<open>RETRY_BASE_DELAY * 2 ^ attempt\<close>, and
  attempt \<open>n\<close> is the last one, either because the retries are used up or because its
  outcome is not retryable. The call ends as that last outcome says: status 200 returns
  the decoded body, status 429 raises the rate-limited error, any other status raises the
  API error with the status code and the first 200 characters of the body, and a transport
  failure raises at once. So a 429 or 503 followed by a 200 succeeds with two attempts, and
  a 500 raises after one attempt.
\<close>

theorem request_retry_policy:
  assumes "fst (cache_get now_get (cache_key lib endpoint (common_params email ps)) c) = None
         \<or> fst (cache_get now_get (cache_key lib endpoint (common_params email ps)) c)
             = Some JNull"
  shows "\<exists>n\<le>MAX_RETRIES.
           (\<forall>i<n. retryable (send i))
         \<and> (n = MAX_RETRIES \<or> \<not> retryable (send n))
         \<and> fst (request lib base_url email send now_get now_put endpoint ps c)
             = terminal (send n)
         \<and> snd (snd (request lib base_url email send now_get now_put endpoint ps c))
             = retry_events (base_url @ ''/'' @ endpoint) (common_params email ps) 0 n"
proof -
  let ?params = "common_params email ps"
  let ?key = "cache_key lib endpoint ?params"
  from attempt_loop_runs [of 0 send "base_url @ ''/'' @ endpoint" ?params None]
  obtain n where n: "n \<le> MAX_RETRIES" "\<forall>i<n. retryable (send i)"
    "n = MAX_RETRIES \<or> \<not> retryable (send n)"
    "attempt_loop send (base_url @ ''/'' @ endpoint) ?params [0..<Suc MAX_RETRIES] None =
       (loop_result (send n), retry_events (base_url @ ''/'' @ endpoint) ?params 0 n)"
    by auto
  have "request lib base_url email send now_get now_put endpoint ps c =
          fetch base_url send now_put endpoint ?key ?params (snd (cache_get now_get ?key c))"
    using assms by (auto simp: request_def Let_def)
  with fetch_terminal [OF n(4)] n(1-3) show ?thesis by auto
qed

lemma retry_count_unique:
  assumes "n \<le> MAX_RETRIES" "\<forall>i<n. retryable (send i)" "n = MAX_RETRIES \<or> \<not> retryable (send n)"
    and "m \<le> MAX_RETRIES" "\<forall>i<m. retryable (send i)" "m = MAX_RETRIES \<or> \<not> retryable (send m)"
  shows "n = m"
  using assms by (metis le_neq_implies_less linorder_neqE_nat not_le)

lemma empty_cache_miss:
  "fst (cache_get now key []) = None \<or> fst (cache_get now key []) = Some JNull"
  by (simp add: cache_get_def)

lemma example_common_params:
  "common_params [] [] = [(''format'', JStr ''jsonv2''), (''addressdetails'', JStr ''1'')]"
  by (simp add: common_params_def dict_setdefault_def DEFAULT_FORMAT_def)

text \<open>
  The theorem on a fresh client: a 429 followed by a 200 succeeds with two GETs, 2 seconds
  apart; a service that keeps answering 429 is given up on after four GETs, 2, 4 and 8
  seconds apart, with the rate-limited error; one that keeps answering 503 ends the same
  way with the API error; a 500 raises the API error after one GET.
\<close>

theorem request_retry_policy_witness:
  "fst (request example_lib ''https://nominatim.example'' [] send_429_then_200 0 0 ''search'' [] [])
     = Inr (JList [])
   \<and> snd (snd (request example_lib ''https://nominatim.example'' [] send_429_then_200 0 0
                ''search'' [] []))
     = [RateLimit, HttpGet ''https://nominatim.example/search'' (common_params [] []), Sleep 2,
        RateLimit, HttpGet ''https://nominatim.example/search'' (common_params [] [])]
   \<and> fst (request example_lib ''https://nominatim.example'' [] (send_always 429) 0 0 ''search'' [] [])
     = Inl (RuntimeError RATE_LIMITED)
   \<and> snd (snd (request example_lib ''https://nominatim.example'' [] (send_always 429) 0 0
                ''search'' [] []))
     = [RateLimit, HttpGet ''https://nominatim.example/search'' (common_params [] []), Sleep 2,
        RateLimit, HttpGet ''https://nominatim.example/search'' (common_params [] []), Sleep 4,
        RateLimit, HttpGet ''https://nominatim.example/search'' (common_params [] []), Sleep 8,
        RateLimit, HttpGet ''https://nominatim.example/search'' (common_params [] [])]
   \<and> fst (request example_lib ''https://nominatim.example'' [] (send_always 503) 0 0 ''search'' [] [])
     = Inl (RuntimeError (API_ERROR 503 ''busy''))
   \<and> fst (request example_lib ''https://nominatim.example'' [] send_500 0 0 ''search'' [] [])
     = Inl (RuntimeError (API_ERROR 500 ''Internal Server Error''))
   \<and> snd (snd (request example_lib ''https://nominatim.example'' [] send_500 0 0 ''search'' [] []))
     = [RateLimit, HttpGet ''https://nominatim.example/search'' (common_params [] [])]"
proof -
  have once: "P 1" if "\<exists>n\<le>MAX_RETRIES. (\<forall>i<n. retryable (send_429_then_200 i))
      \<and> (n = MAX_RETRIES \<or> \<not> retryable (send_429_then_200 n)) \<and> P n" for P
  proof -
    from that obtain n where n: "n \<le> MAX_RETRIES" "\<forall>i<n. retryable (send_429_then_200 i)"
      "n = MAX_RETRIES \<or> \<not> retryable (send_429_then_200 n)" "P n" by blast
    have "n = 1"
      by (rule retry_count_unique [OF n(1-3)])
         (simp_all add: MAX_RETRIES_def send_429_then_200_def retryable_def)
    with n(4) show ?thesis by simp
  qed
  have always: "P 3" if "\<exists>n\<le>MAX_RETRIES. (\<forall>i<n. retryable (send_always s i))
      \<and> (n = MAX_RETRIES \<or> \<not> retryable (send_always s n)) \<and> P n"
    and "s = 429 \<or> s = 503" for P s
  proof -
    from that obtain n where n: "n \<le> MAX_RETRIES" "\<forall>i<n. retryable (send_always s i)"
      "n = MAX_RETRIES \<or> \<not> retryable (send_always s n)" "P n" by blast
    have "n = 3"
      using that(2)
      by (intro retry_count_unique [OF n(1-3)])
         (auto simp: MAX_RETRIES_def send_always_def retryable_def)
    with n(4) show ?thesis by simp
  qed
  have never: "P 0" if "\<exists>n\<le>MAX_RETRIES. (\<forall>i<n. retryable (send_500 i))
      \<and> (n = MAX_RETRIES \<or> \<not> retryable (send_500 n)) \<and> P n" for P
  proof -
    from that obtain n where n: "n \<le> MAX_RETRIES" "\<forall>i<n. retryable (send_500 i)"
      "n = MAX_RETRIES \<or> \<not> retryable (send_500 n)" "P n" by blast
    have "n = 0"
      by (rule retry_count_unique [OF n(1-3)])
         (simp_all add: MAX_RETRIES_def send_500_def retryable_def)
    with n(4) show ?thesis by simp
  qed
  have up: "[0..<3] = [0, 1, 2]" "[0..<1] = [0]"
    by (simp_all add: upt_rec)
  note ev = terminal_def retry_events_def RETRY_BASE_DELAY_def up
  from once [OF request_retry_policy [where lib = example_lib and base_url = "''https://nominatim.example''"
      and email = "[]" and send = "send_429_then_200" and now_get = 0 and now_put = 0
      and endpoint = "''search''" and ps = "[]" and c = "[]", OF empty_cache_miss]]
  have a: "fst (request example_lib ''https://nominatim.example'' [] send_429_then_200 0 0
                  ''search'' [] []) = Inr (JList [])
     \<and> snd (snd (request example_lib ''https://nominatim.example'' [] send_429_then_200 0 0
                ''search'' [] []))
     = [RateLimit, HttpGet ''https://nominatim.example/search'' (common_params [] []), Sleep 2,
        RateLimit, HttpGet ''https://nominatim.example/search'' (common_params [] [])]"
    by (simp add: ev send_429_then_200_def)
  from always [OF request_retry_policy [where lib = example_lib and base_url = "''https://nominatim.example''"
      and email = "[]" and send = "send_always 429" and now_get = 0 and now_put = 0
      and endpoint = "''search''" and ps = "[]" and c = "[]", OF empty_cache_miss]]
  have b: "fst (request example_lib ''https://nominatim.example'' [] (send_always 429) 0 0
                  ''search'' [] []) = Inl (RuntimeError RATE_LIMITED)
     \<and> snd (snd (request example_lib ''https://nominatim.example'' [] (send_always 429) 0 0
                ''search'' [] []))
     = [RateLimit, HttpGet ''https://nominatim.example/search'' (common_params [] []), Sleep 2,
        RateLimit, HttpGet ''https://nominatim.example/search'' (common_params [] []), Sleep 4,
        RateLimit, HttpGet ''https://nominatim.example/search'' (common_params [] []), Sleep 8,
        RateLimit, HttpGet ''https://nominatim.example/search'' (common_params [] [])]"
    by (simp add: ev send_always_def)
  from always [OF request_retry_policy [where lib = example_lib and base_url = "''https://nominatim.example''"
      and email = "[]" and send = "send_always 503" and now_get = 0 and now_put = 0
      and endpoint = "''search''" and ps = "[]" and c = "[]", OF empty_cache_miss]]
  have c: "fst (request example_lib ''https://nominatim.example'' [] (send_always 503) 0 0
                  ''search'' [] []) = Inl (RuntimeError (API_ERROR 503 ''busy''))"
    by (simp add: ev send_always_def)
  from never [OF request_retry_policy [where lib = example_lib and base_url = "''https://nominatim.example''"
      and email = "[]" and send = "send_500" and now_get = 0 and now_put = 0
      and endpoint = "''search''" and ps = "[]" and c = "[]", OF empty_cache_miss]]
  have d: "fst (request example_lib ''https://nominatim.example'' [] send_500 0 0 ''search'' [] [])
     = Inl (RuntimeError (API_ERROR 500 ''Internal Server Error''))
   \<and> snd (snd (request example_lib ''https://nominatim.example'' [] send_500 0 0 ''search'' [] []))
     = [RateLimit, HttpGet ''https://nominatim.example/search'' (common_params [] [])]"
    by (simp add: ev send_500_def)
  from a b c d show ?thesis by blast
qed

subsection \<open>The response cache\<close>

lemma filter_key_present:
  "distinct (map fst c) \<Longrightarrow> map_of c key = Some e \<Longrightarrow> filter (\<lambda>kv. fst kv = key) c = [(key, e)]"
proof (induction c)
  case Nil
  then show ?case by simp
next
  case (Cons kv c)
  show ?case
  proof (cases "fst kv = key")
    case True
    with Cons.prems have "kv = (key, e)" by (cases kv) simp
    moreover from True Cons.prems have "key \<notin> fst ` set c" by auto
    then have "filter (\<lambda>kv. fst kv = key) c = []" by (auto simp: filter_empty_conv)
    ultimately show ?thesis by simp
  next
    case False
    with Cons show ?thesis by simp
  qed
qed

lemma od_move_to_end_present:
  "distinct (map fst c) \<Longrightarrow> map_of c key = Some e \<Longrightarrow>
   od_move_to_end key c = od_del key c @ [(key, e)]"
  by (simp add: od_move_to_end_def od_del_def filter_key_present)

lemma od_contains_map_of: "od_contains key c \<longleftrightarrow> map_of c key \<noteq> None"
  by (simp add: od_contains_def map_of_eq_None_iff)

lemma od_set_absent: "\<not> od_contains key c \<Longrightarrow> od_set key e c = c @ [(key, e)]"
  by (induction c) (auto simp: od_contains_def)

lemma od_set_last:
  "\<not> od_contains key c \<Longrightarrow> od_set key e (c @ [(key, e')]) = c @ [(key, e)]"
  by (induction c) (auto simp: od_contains_def)

lemma od_del_absent: "\<not> od_contains key (od_del key c)"
  by (auto simp: od_contains_def od_del_def)

lemma od_del_keys: "od_contains k (od_del key c) \<longleftrightarrow> od_contains k c \<and> k \<noteq> key"
  by (auto simp: od_contains_def od_del_def)

lemma distinct_od_del: "distinct (map fst c) \<Longrightarrow> distinct (map fst (od_del key c))"
  by (simp add: od_del_def distinct_map_filter)

lemma length_od_del:
  "distinct (map fst c) \<Longrightarrow> od_contains key c \<Longrightarrow> Suc (length (od_del key c)) = length c"
proof (induction c)
  case Nil
  then show ?case by (simp add: od_contains_def)
next
  case (Cons kv c)
  show ?case
  proof (cases "fst kv = key")
    case True
    with Cons.prems have "key \<notin> fst ` set c" by auto
    then have "filter (\<lambda>kv. fst kv \<noteq> key) c = c" by (auto simp: filter_id_conv)
    with True show ?thesis by (simp add: od_del_def)
  next
    case False
    with Cons show ?thesis by (simp add: od_del_def od_contains_def)
  qed
qed

lemma cache_put_existing:
  assumes "distinct (map fst c)" and "od_contains key c"
  shows "cache_put now key d c = Inr (od_del key c @ [(key, \<lparr>data = d, timestamp = now\<rparr>)])"
proof -
  from assms(2) obtain e where "map_of c key = Some e"
    by (auto simp: od_contains_map_of)
  with assms show ?thesis
    by (simp add: cache_put_def od_move_to_end_present od_set_last od_del_absent)
qed

lemma cache_put_full:
  assumes "\<not> od_contains key c" and "CACHE_MAX_SIZE \<le> length c"
  shows "cache_put now key d c = Inr (tl c @ [(key, \<lparr>data = d, timestamp = now\<rparr>)])"
proof (cases c)
  case Nil
  with assms(2) show ?thesis by (simp add: CACHE_MAX_SIZE_def)
next
  case (Cons kv rest)
  with assms(1) have "\<not> od_contains key rest" by (simp add: od_contains_def)
  with assms Cons show ?thesis
    by (simp add: cache_put_def od_popitem_first_def od_set_absent)
qed

lemma cache_put_room:
  assumes "\<not> od_contains key c" and "length c < CACHE_MAX_SIZE"
  shows "cache_put now key d c = Inr (c @ [(key, \<lparr>data = d, timestamp = now\<rparr>)])"
  using assms by (simp add: cache_put_def od_set_absent)


lemma cache_get_fresh:
  assumes "distinct (map fst c)" and "map_of c key = Some e"
    and "now - timestamp e \<le> CACHE_TTL_SECONDS"
  shows "cache_get now key c = (Some (data e), od_del key c @ [(key, e)])"
  using assms by (simp add: cache_get_def od_move_to_end_present)


lemma cache_ok_moved:
  assumes "cache_ok c" and "od_contains key c"
  shows "cache_ok (od_del key c @ [(key, e)])"
proof -
  from assms have "distinct (map fst (od_del key c))" "Suc (length (od_del key c)) = length c"
    by (simp_all add: cache_ok_def distinct_od_del length_od_del)
  moreover have "key \<notin> fst ` set (od_del key c)"
    using od_del_absent [of key c] by (simp add: od_contains_def)
  ultimately show ?thesis using assms(1) by (simp add: cache_ok_def)
qed

lemma cache_ok_od_del: "cache_ok c \<Longrightarrow> cache_ok (od_del key c)"
proof -
  assume ok: "cache_ok c"
  have "length (od_del key c) \<le> length c" by (simp add: od_del_def)
  with ok show ?thesis by (simp add: cache_ok_def distinct_od_del)
qed

lemma cache_ok_put:
  assumes "cache_ok c" and "cache_put now key d c = Inr c'"
  shows "cache_ok c'"
proof (cases "od_contains key c")
  case True
  with assms cache_put_existing [of c key now d] cache_ok_moved [of c key]
  show ?thesis by (auto simp: cache_ok_def)
next
  case absent: False
  show ?thesis
  proof (cases "CACHE_MAX_SIZE \<le> length c")
    case True
    from absent have "key \<notin> fst ` set (tl c)"
      by (cases c) (auto simp: od_contains_def)
    moreover from assms(1) have "distinct (map fst (tl c))"
      by (cases c) (auto simp: cache_ok_def)
    moreover from True have "c \<noteq> []" by (auto simp: CACHE_MAX_SIZE_def)
    ultimately show ?thesis
      using assms cache_put_full [OF absent True, of now d]
      by (auto simp: cache_ok_def)
  next
    case False
    with assms absent cache_put_room [of key c now d]
    show ?thesis by (auto simp: cache_ok_def od_contains_def)
  qed
qed

lemma cache_ok_get:
  assumes "cache_ok c"
  shows "cache_ok (snd (cache_get now key c))"
proof (cases "map_of c key")
  case None
  with assms show ?thesis by (simp add: cache_get_def)
next
  case (Some e)
  then have "od_contains key c" by (simp add: od_contains_map_of)
  from cache_ok_moved [OF assms this, of e] cache_ok_od_del [OF assms, of key] Some assms
  show ?thesis by (simp add: cache_get_def od_move_to_end_present cache_ok_def)
qed

lemma cache_ok_step: "cache_ok c \<Longrightarrow> cache_ok (cache_step c op)"
  by (cases op) (auto simp: cache_ok_get cache_ok_put split: sum.splits)

lemma cache_ok_foldl: "cache_ok c \<Longrightarrow> cache_ok (foldl cache_step c ops)"
  by (induction ops arbitrary: c) (simp_all add: cache_ok_step)

lemma cache_ok_after: "cache_ok (cache_after ops)"
proof -
  have "cache_ok []" by (simp add: cache_ok_def)
  then show ?thesis unfolding cache_after_def by (rule cache_ok_foldl)
qed






lemma cache_get_keys: "fst ` set (snd (cache_get now key c)) \<subseteq> fst ` set c"
  by (auto simp: cache_get_def od_del_def od_move_to_end_def split: option.splits)




text \<open>
  Claim C2. In the cache \<open>c\<close> a client holds after any sequence of gets and puts:
  there are never more than \<open>CACHE_MAX_SIZE\<close> entries; a put of a new key into the full cache
  drops the head, which is the least recently used entry, and nothing else, and appends the
  new entry; a put of a new key into a cache with room appends it; a put of an existing key
  replaces its payload and timestamp and moves it to the end; and a get that returns a
  payload moves the key to the end, so that the put of a new key that follows, evicting from
  the full cache, leaves that key in.
\<close>

theorem cache_lru:
  assumes "c = cache_after ops"
  shows "length c \<le> CACHE_MAX_SIZE
    \<and> (\<not> od_contains key c \<and> length c = CACHE_MAX_SIZE \<longrightarrow>
         cache_put now key d c = Inr (tl c @ [(key, \<lparr>data = d, timestamp = now\<rparr>)]))
    \<and> (\<not> od_contains key c \<and> length c < CACHE_MAX_SIZE \<longrightarrow>
         cache_put now key d c = Inr (c @ [(key, \<lparr>data = d, timestamp = now\<rparr>)]))
    \<and> (od_contains key c \<longrightarrow>
         cache_put now key d c = Inr (od_del key c @ [(key, \<lparr>data = d, timestamp = now\<rparr>)]))
    \<and> (fst (cache_get now key c) = Some d \<longrightarrow>
         (\<exists>e. snd (cache_get now key c) = od_del key c @ [(key, e)])
       \<and> (\<forall>now' key' d'.
             \<not> od_contains key' (snd (cache_get now key c))
             \<and> length (snd (cache_get now key c)) = CACHE_MAX_SIZE \<longrightarrow>
             (\<exists>c''. cache_put now' key' d' (snd (cache_get now key c)) = Inr c''
                    \<and> od_contains key c'')))"
proof -
  have ok: "cache_ok c" using assms by (simp add: cache_ok_after)
  then have dist: "distinct (map fst c)" and len: "length c \<le> CACHE_MAX_SIZE"
    by (simp_all add: cache_ok_def)
  have full: "cache_put now key d c = Inr (tl c @ [(key, \<lparr>data = d, timestamp = now\<rparr>)])"
    if "\<not> od_contains key c \<and> length c = CACHE_MAX_SIZE"
    using that cache_put_full [of key c now d] by simp
  have room: "cache_put now key d c = Inr (c @ [(key, \<lparr>data = d, timestamp = now\<rparr>)])"
    if "\<not> od_contains key c \<and> length c < CACHE_MAX_SIZE"
    using that cache_put_room [of key c now d] by simp
  have again: "cache_put now key d c = Inr (od_del key c @ [(key, \<lparr>data = d, timestamp = now\<rparr>)])"
    if "od_contains key c"
    using that dist by (rule cache_put_existing [rotated])
  have got: "(\<exists>e. snd (cache_get now key c) = od_del key c @ [(key, e)])
       \<and> (\<forall>now' key' d'.
             \<not> od_contains key' (snd (cache_get now key c))
             \<and> length (snd (cache_get now key c)) = CACHE_MAX_SIZE \<longrightarrow>
             (\<exists>c''. cache_put now' key' d' (snd (cache_get now key c)) = Inr c''
                    \<and> od_contains key c''))"
    if hit: "fst (cache_get now key c) = Some d"
  proof -
    from hit obtain e where e: "map_of c key = Some e"
      and fresh: "\<not> now - timestamp e > CACHE_TTL_SECONDS"
      by (auto simp: cache_get_def split: option.splits if_splits)
    then have moved: "snd (cache_get now key c) = od_del key c @ [(key, e)]"
      using dist by (simp add: cache_get_def od_move_to_end_present)
    have "\<exists>c''. cache_put now' key' d' (od_del key c @ [(key, e)]) = Inr c''
                    \<and> od_contains key c''"
      if new: "\<not> od_contains key' (od_del key c @ [(key, e)])"
        and cap: "length (od_del key c @ [(key, e)]) = CACHE_MAX_SIZE"
      for now' key' d'
    proof -
      from cap have "od_del key c \<noteq> []" by (auto simp: CACHE_MAX_SIZE_def)
      then have "od_contains key (tl (od_del key c @ [(key, e)]))"
        by (cases "od_del key c") (simp_all add: od_contains_def)
      then have "od_contains key
          (tl (od_del key c @ [(key, e)]) @ [(key', \<lparr>data = d', timestamp = now'\<rparr>)])"
        by (simp add: od_contains_def)
      with cache_put_full [OF new, of now' d'] cap show ?thesis by simp
    qed
    with moved show ?thesis by auto
  qed
  from len full room again got show ?thesis by blast
qed


lemma example_key_inj: "example_key i = example_key j \<longleftrightarrow> i = j"
proof
  assume "example_key i = example_key j"
  then have "length (example_key i) = length (example_key j)" by simp
  then show "i = j" by (simp add: example_key_def)
qed simp

lemma example_fill_keys:
  "od_contains key (map (\<lambda>i. (example_key i, e)) [0..<n]) \<longleftrightarrow> (\<exists>i<n. key = example_key i)"
  by (auto simp: od_contains_def)

lemma cache_after_fill:
  "n \<le> CACHE_MAX_SIZE \<Longrightarrow>
   cache_after (example_fill n) =
     map (\<lambda>i. (example_key i, \<lparr>data = JNull, timestamp = 0\<rparr>)) [0..<n]"
proof (induction n)
  case 0
  then show ?case by (simp add: cache_after_def example_fill_def)
next
  case (Suc n)
  let ?c = "map (\<lambda>i. (example_key i, \<lparr>data = JNull, timestamp = 0\<rparr>)) [0..<n]"
  from Suc have c: "cache_after (example_fill n) = ?c" by simp
  have "\<not> od_contains (example_key n) ?c"
    by (simp add: example_fill_keys example_key_inj)
  moreover from Suc.prems have "length ?c < CACHE_MAX_SIZE" by simp
  ultimately have "cache_put 0 (example_key n) JNull ?c =
      Inr (?c @ [(example_key n, \<lparr>data = JNull, timestamp = 0\<rparr>)])"
    by (rule cache_put_room)
  moreover have "cache_after (example_fill (Suc n)) =
      cache_step (cache_after (example_fill n)) (CachePut 0 (example_key n) JNull)"
    by (simp add: cache_after_def example_fill_def)
  ultimately show ?case using c by simp
qed

lemma map_of_fill_oldest:
  "0 < n \<Longrightarrow> map_of (map (\<lambda>i. (example_key i, e)) [0..<n]) (example_key 0) = Some e"
  by (simp add: upt_conv_Cons)

lemma new_not_example_key: "''new'' \<noteq> example_key i"
  by (simp add: example_key_def)

text \<open>
  The theorem on the cache filled with 1000 keys, of which \<open>k\<close> is the oldest: a new key
  evicts the head; putting \<open>k\<close> again moves it to the end; after a get of \<open>k\<close>, the next new
  key evicts another entry and \<open>k\<close> stays. On a cache of two entries a new key is appended.
\<close>

theorem cache_lru_witness:
  "length (cache_after (example_fill 1000)) = CACHE_MAX_SIZE
   \<and> cache_put 1 ''new'' (JList []) (cache_after (example_fill 1000)) =
       Inr (tl (cache_after (example_fill 1000)) @ [(''new'', \<lparr>data = JList [], timestamp = 1\<rparr>)])
   \<and> cache_put 1 ''k'' (JList []) (cache_after (example_fill 1000)) =
       Inr (od_del ''k'' (cache_after (example_fill 1000))
              @ [(''k'', \<lparr>data = JList [], timestamp = 1\<rparr>)])
   \<and> fst (cache_get 1 ''k'' (cache_after (example_fill 1000))) = Some JNull
   \<and> (\<exists>c''. cache_put 2 ''new'' (JList []) (snd (cache_get 1 ''k'' (cache_after (example_fill 1000))))
               = Inr c'' \<and> od_contains ''k'' c'')
   \<and> cache_put 1 ''new'' (JList []) (cache_after (example_fill 2)) =
       Inr (cache_after (example_fill 2) @ [(''new'', \<lparr>data = JList [], timestamp = 1\<rparr>)])"
proof -
  let ?C = "cache_after (example_fill 1000)"
  let ?e = "\<lparr>data = JNull, timestamp = 0\<rparr>"
  have C: "?C = map (\<lambda>i. (example_key i, ?e)) [0..<1000]"
    by (rule cache_after_fill) (simp add: CACHE_MAX_SIZE_def)
  have len: "length ?C = CACHE_MAX_SIZE" by (simp add: C CACHE_MAX_SIZE_def)
  have new: "\<not> od_contains ''new'' ?C"
    unfolding C example_fill_keys using new_not_example_key by blast
  have k: "example_key 0 = ''k''" by (simp add: example_key_def)
  have old: "od_contains ''k'' ?C"
    unfolding C example_fill_keys using k by (intro exI [of _ 0]) simp
  have "map_of ?C ''k'' = Some ?e"
    unfolding C k [symmetric] by (rule map_of_fill_oldest) simp
  then have hit: "fst (cache_get 1 ''k'' ?C) = Some JNull"
    by (simp add: cache_get_def CACHE_TTL_SECONDS_def)
  have ok: "cache_ok ?C" by (rule cache_ok_after)
  let ?G = "snd (cache_get 1 ''k'' ?C)"
  have "fst ` set ?G \<subseteq> fst ` set ?C" by (rule cache_get_keys)
  with new have newG: "\<not> od_contains ''new'' ?G" by (auto simp: od_contains_def)
  note lru = cache_lru [OF refl, where ops = "example_fill 1000"]
  from lru [of "''k''" 1 JNull] hit obtain e where G: "?G = od_del ''k'' ?C @ [(''k'', e)]"
    by blast
  have lenG: "length ?G = CACHE_MAX_SIZE"
    using length_od_del [of ?C "''k''"] ok old len by (simp add: G cache_ok_def)
  have C2: "cache_after (example_fill 2) = map (\<lambda>i. (example_key i, ?e)) [0..<2]"
    by (rule cache_after_fill) (simp add: CACHE_MAX_SIZE_def)
  have new2: "\<not> od_contains ''new'' (cache_after (example_fill 2))"
    unfolding C2 example_fill_keys using new_not_example_key by blast
  have len2: "length (cache_after (example_fill 2)) < CACHE_MAX_SIZE"
    by (simp add: C2 CACHE_MAX_SIZE_def)
  from lru [of "''new''" 1 "JList []"] new len
  have a: "cache_put 1 ''new'' (JList []) ?C =
       Inr (tl ?C @ [(''new'', \<lparr>data = JList [], timestamp = 1\<rparr>)])" by blast
  from lru [of "''k''" 1 "JList []"] old
  have b: "cache_put 1 ''k'' (JList []) ?C =
       Inr (od_del ''k'' ?C @ [(''k'', \<lparr>data = JList [], timestamp = 1\<rparr>)])" by blast
  from lru [of "''k''" 1 JNull] hit newG lenG
  have c: "\<exists>c''. cache_put 2 ''new'' (JList []) ?G = Inr c'' \<and> od_contains ''k'' c''" by blast
  from cache_lru [OF refl, where ops = "example_fill 2", of "''new''" 1 "JList []"] new2 len2
  have d: "cache_put 1 ''new'' (JList []) (cache_after (example_fill 2)) =
       Inr (cache_after (example_fill 2) @ [(''new'', \<lparr>data = JList [], timestamp = 1\<rparr>)])"
    by blast
  from len a b hit c d show ?thesis by blast
qed


subsection \<open>Cache keys\<close>

lemma isspace_lower_char: "isspace (lower_char c) = isspace c"
proof -
  have "of_char (lower_char c) = (of_char c :: nat) \<or>
        (of_char (lower_char c) = (of_char c :: nat) + 32
         \<and> ((65 \<le> (of_char c :: nat) \<and> (of_char c :: nat) \<le> 90)
            \<or> (192 \<le> (of_char c :: nat) \<and> (of_char c :: nat) \<le> 222)))"
    by (auto simp: lower_char_def Let_def)
  then show ?thesis
    by (auto simp: isspace_def Let_def)
qed

lemma py_split_from_space:
  "isspace c \<Longrightarrow>
   py_split_from cur (c # cs) = (if cur = [] then py_split_from [] cs else cur # py_split_from [] cs)"
  by simp

lemma py_split_from_skip:
  "py_split_from [] (map lower_char (dropWhile isspace cs)) = py_split_from [] (map lower_char cs)"
  by (induction cs) (simp_all add: isspace_lower_char)

lemma same_text_split:
  "same_text s t \<Longrightarrow>
   py_split_from cur (map lower_char s) = py_split_from cur (map lower_char t)"
proof (induction s t arbitrary: cur rule: same_text.induct)
  case 1
  then show ?case by simp
next
  case (2 a as b bs)
  show ?case
  proof (cases "isspace a \<and> isspace b")
    case True
    with 2 have "py_split_from [] (map lower_char (dropWhile isspace as)) =
                 py_split_from [] (map lower_char (dropWhile isspace bs))"
      by simp
    then have "py_split_from [] (map lower_char as) = py_split_from [] (map lower_char bs)"
      by (simp add: py_split_from_skip)
    with True show ?thesis by (simp add: isspace_lower_char)
  next
    case False
    with 2 show ?thesis by (simp add: isspace_lower_char)
  qed
next
  case (3 b bs)
  then show ?case by simp
next
  case (4 a as)
  then show ?case by simp
qed

lemma same_value_normalize: "same_value v w \<Longrightarrow> normalize_value v = normalize_value w"
  by (cases v; cases w)
     (auto simp: normalize_value_def py_split_def py_lower_def
        dest: same_text_split [where cur = "[]"])

lemma same_params_normalize: "same_params p q \<Longrightarrow> normalize_params p = normalize_params q"
  unfolding same_params_def normalize_params_def
  by (induction p q rule: list_all2_induct) (auto simp: same_value_normalize)

text \<open>
  Claim C4. Parameter mappings that differ only in the case of string values and in their
  whitespace runs get the same cache key, for every endpoint; and when the serialisations
  of the normalised mappings differ, the keys differ unless the hash takes the same value
  on the two texts hashed.
\<close>

theorem cache_key_normalization:
  "(same_params p q \<longrightarrow> cache_key lib endpoint p = cache_key lib endpoint q)
 \<and> (json_dumps_sorted lib (normalize_params p) \<noteq> json_dumps_sorted lib (normalize_params q)
      \<and> inj_on (md5_hexdigest lib) {cache_raw lib endpoint p, cache_raw lib endpoint q}
      \<longrightarrow> cache_key lib endpoint p \<noteq> cache_key lib endpoint q)"
proof (intro conjI impI)
  assume "same_params p q"
  then show "cache_key lib endpoint p = cache_key lib endpoint q"
    by (simp add: cache_key_def cache_raw_def same_params_normalize)
next
  assume a: "json_dumps_sorted lib (normalize_params p) \<noteq> json_dumps_sorted lib (normalize_params q)
      \<and> inj_on (md5_hexdigest lib) {cache_raw lib endpoint p, cache_raw lib endpoint q}"
  then have "cache_raw lib endpoint p \<noteq> cache_raw lib endpoint q"
    by (simp add: cache_raw_def)
  with a show "cache_key lib endpoint p \<noteq> cache_key lib endpoint q"
    by (auto simp: cache_key_def dest: inj_onD)
qed

lemma example_same_text: "same_text ''Boulder, CO'' ''boulder,  co''"
  by code_simp

text \<open>The theorem on the queries \<open>Boulder, CO\<close> and \<open>boulder,  co\<close>, and on \<open>boulder\<close> and
  \<open>denver\<close> with a hash that is the identity.\<close>

theorem cache_key_normalization_witness:
  "same_params [(''q'', JStr ''Boulder, CO''), (''limit'', JInt 5)]
               [(''q'', JStr ''boulder,  co''), (''limit'', JInt 5)]
   \<and> cache_key example_lib ''search'' [(''q'', JStr ''Boulder, CO''), (''limit'', JInt 5)]
     = cache_key example_lib ''search'' [(''q'', JStr ''boulder,  co''), (''limit'', JInt 5)]
   \<and> cache_key example_lib ''search'' [(''q'', JStr ''boulder'')]
     \<noteq> cache_key example_lib ''search'' [(''q'', JStr ''denver'')]"
proof -
  have same: "same_params [(''q'', JStr ''Boulder, CO''), (''limit'', JInt 5)]
               [(''q'', JStr ''boulder,  co''), (''limit'', JInt 5)]"
    by (simp add: same_params_def example_same_text del: same_text.simps)
  have differ: "json_dumps_sorted example_lib (normalize_params [(''q'', JStr ''boulder'')])
      \<noteq> json_dumps_sorted example_lib (normalize_params [(''q'', JStr ''denver'')])"
    by code_simp
  have inj: "inj_on (md5_hexdigest example_lib)
      {cache_raw example_lib ''search'' [(''q'', JStr ''boulder'')],
       cache_raw example_lib ''search'' [(''q'', JStr ''denver'')]}"
    by (simp add: inj_on_def example_lib_def)
  from cache_key_normalization [of "[(''q'', JStr ''Boulder, CO''), (''limit'', JInt 5)]"
      "[(''q'', JStr ''boulder,  co''), (''limit'', JInt 5)]" example_lib "''search''"] same
    cache_key_normalization [of "[(''q'', JStr ''boulder'')]" "[(''q'', JStr ''denver'')]"
      example_lib "''search''"] differ inj
  show ?thesis by blast
qed

subsection \<open>Validation\<close>

lemma py_strip_empty: "py_strip q = [] \<longleftrightarrow> list_all isspace q"
proof
  assume "py_strip q = []"
  then have all: "\<forall>c\<in>set (dropWhile isspace q). isspace c"
    by (simp add: py_strip_def dropWhile_eq_Nil_conv)
  show "list_all isspace q"
  proof (cases "dropWhile isspace q")
    case Nil
    then show ?thesis by (simp add: dropWhile_eq_Nil_conv list_all_iff)
  next
    case (Cons c cs)
    then have "\<not> isspace c" using hd_dropWhile [of isspace q] by simp
    moreover from Cons all have "isspace c" by simp
    ultimately show ?thesis by simp
  qed
next
  assume "list_all isspace q"
  then have none: "dropWhile isspace q = []" by (simp add: list_all_iff)
  show "py_strip q = []" unfolding py_strip_def none by simp
qed

lemma validate_query_blank:
  "list_all isspace q \<Longrightarrow> validate_query q = Inl (ValueError EMPTY_QUERY)"
  by (simp add: validate_query_def py_strip_empty)

lemma validate_coordinates_bad:
  "\<not> (- 90 \<le> lat \<and> lat \<le> 90) \<or> \<not> (- 180 \<le> lon \<and> lon \<le> 180) \<Longrightarrow>
   validate_coordinates lat lon =
     Inl (ValueError (if \<not> (- 90 \<le> lat \<and> lat \<le> 90) then INVALID_LAT lat else INVALID_LON lon))"
  by (auto simp: validate_coordinates_def)

lemma geocode_blank:
  "list_all isspace q \<Longrightarrow>
   geocode lib cl calls q limit cc lang = (Inl (ValueError EMPTY_QUERY), calls)"
  by (simp add: geocode_def validate_query_blank)

lemma geocode_calls:
  "snd (geocode lib cl calls q limit cc lang) = calls
   \<or> snd (geocode lib cl calls q limit cc lang) = calls @ [Search q limit cc None False lang]"
  by (auto simp: geocode_def Let_def split: sum.splits)

lemma resolve_loop_calls:
  "\<exists>k\<le>length wps.
     snd (resolve_loop lib cl wps (resolved, calls)) = calls @ map waypoint_search (take k wps)"
proof (induction wps arbitrary: resolved calls)
  case Nil
  then show ?case by simp
next
  case (Cons wp wps)
  let ?done = "geocode lib cl calls wp 1 None None"
  show ?case
  proof (cases "\<exists>item others. fst ?done = Inr (item # others)")
    case False
    then have stop: "snd (resolve_loop lib cl (wp # wps) (resolved, calls)) = snd ?done"
      by (auto simp: Let_def split: sum.splits list.splits)
    from geocode_calls [of lib cl calls wp 1 None None] show ?thesis
    proof
      assume "snd ?done = calls"
      with stop show ?thesis by (intro exI [of _ 0]) simp
    next
      assume "snd ?done = calls @ [Search wp 1 None None False None]"
      with stop show ?thesis by (intro exI [of _ 1]) (simp add: waypoint_search_def)
    qed
  next
    case True
    then obtain item others where ok: "fst ?done = Inr (item # others)" by blast
    then have made: "snd ?done = calls @ [waypoint_search wp]"
      by (auto simp: geocode_def Let_def waypoint_search_def split: sum.splits if_splits)
    let ?resolved = "resolved @ [\<lparr>w_name = g_display_name item, w_lat = g_lat item,
                              w_lon = g_lon item, w_bbox = g_bbox item\<rparr>]"
    from Cons [of ?resolved "snd ?done"] obtain k where k: "k \<le> length wps"
      "snd (resolve_loop lib cl wps (?resolved, snd ?done)) =
         snd ?done @ map waypoint_search (take k wps)"
      by blast
    from ok have "resolve_loop lib cl (wp # wps) (resolved, calls) =
                  resolve_loop lib cl wps (?resolved, snd ?done)"
      by (simp add: Let_def)
    with k made show ?thesis by (intro exI [of _ "Suc k"]) simp
  qed
qed

lemma resolve_loop_append:
  "resolve_loop lib cl (pre @ rest) (resolved, calls) =
     (case fst (resolve_loop lib cl pre (resolved, calls)) of
        Inl e \<Rightarrow> resolve_loop lib cl pre (resolved, calls)
      | Inr resolved' \<Rightarrow>
          resolve_loop lib cl rest (resolved', snd (resolve_loop lib cl pre (resolved, calls))))"
proof (induction pre arbitrary: resolved calls)
  case Nil
  then show ?case by simp
next
  case (Cons wp pre)
  then show ?case
    by (auto simp: Let_def split: sum.splits list.splits)
qed

lemma resolve_loop_blank:
  "list_all isspace q \<Longrightarrow>
   resolve_loop lib cl (q # post) (resolved, calls) = (Inl (ValueError EMPTY_QUERY), calls)"
  by (simp add: geocode_blank)

lemma route_waypoints_unfold:
  "2 \<le> length wps \<Longrightarrow>
   route_waypoints lib cl calls wps =
      (case fst (resolve_loop lib cl wps ([], calls)) of
         Inl e \<Rightarrow> (Inl e, snd (resolve_loop lib cl wps ([], calls)))
       | Inr resolved \<Rightarrow>
           (bind_exc (legs_loop resolved ([], 0)) (\<lambda>walked.
            bind_exc (bbox_union (map w_bbox resolved)) (\<lambda>combined_bbox.
              Inr \<lparr>rt_waypoints = resolved, rt_legs = fst walked,
                   rt_total_distance_m = py_round (snd walked) 1, rt_bbox = combined_bbox\<rparr>)),
            snd (resolve_loop lib cl wps ([], calls))))"
  by (simp add: route_waypoints_def Let_def)

lemma route_waypoints_blank:
  assumes "list_all isspace q" and "2 \<le> length (pre @ q # post)"
  shows "(\<exists>e. fst (route_waypoints lib cl calls (pre @ q # post)) = Inl e)
    \<and> (\<exists>k\<le>length pre. snd (route_waypoints lib cl calls (pre @ q # post))
                        = calls @ map waypoint_search (take k pre))
    \<and> (\<forall>resolved. fst (resolve_loop lib cl pre ([], calls)) = Inr resolved \<longrightarrow>
          route_waypoints lib cl calls (pre @ q # post) =
            (Inl (ValueError EMPTY_QUERY), snd (resolve_loop lib cl pre ([], calls))))"
proof -
  let ?pre = "resolve_loop lib cl pre ([], calls)"
  have whole: "resolve_loop lib cl (pre @ q # post) ([], calls) =
      (case fst ?pre of Inl e \<Rightarrow> ?pre | Inr r \<Rightarrow> (Inl (ValueError EMPTY_QUERY), snd ?pre))"
    by (simp add: resolve_loop_append resolve_loop_blank [OF assms(1)]
          del: resolve_loop.simps split: sum.splits)
  note route = route_waypoints_unfold [OF assms(2), of lib cl calls]
  have res: "route_waypoints lib cl calls (pre @ q # post) =
      (case fst ?pre of Inl e \<Rightarrow> (Inl e, snd ?pre)
                      | Inr r \<Rightarrow> (Inl (ValueError EMPTY_QUERY), snd ?pre))"
    unfolding route whole by (cases "fst ?pre") simp_all
  from resolve_loop_calls [of pre lib cl "[]" calls] obtain k where
    "k \<le> length pre" "snd ?pre = calls @ map waypoint_search (take k pre)" by blast
  with res show ?thesis by (cases "fst ?pre") auto
qed

lemma resolve_loop_all_resolved:
  assumes "\<forall>i<length wps. \<exists>item others.
             fst (geocode lib cl (calls_after_geocoding lib cl 1 (take i wps) calls) (wps ! i)
                    1 None None) = Inr (item # others)"
  shows "\<exists>rs. resolve_loop lib cl wps (resolved, calls) =
               (Inr rs, calls_after_geocoding lib cl 1 wps calls)"
  using assms
proof (induction wps arbitrary: resolved calls)
  case Nil
  then show ?case by simp
next
  case (Cons wp wps)
  let ?done = "geocode lib cl calls wp 1 None None"
  from Cons.prems [rule_format, of 0] obtain item others where
    ok: "fst ?done = Inr (item # others)" by auto
  have "\<exists>item others.
          fst (geocode lib cl (calls_after_geocoding lib cl 1 (take i wps) (snd ?done)) (wps ! i)
                 1 None None) = Inr (item # others)" if "i < length wps" for i
    using Cons.prems [rule_format, of "Suc i"] that by simp
  then have "\<exists>rs. resolve_loop lib cl wps
      (resolved @ [\<lparr>w_name = g_display_name item, w_lat = g_lat item,
                     w_lon = g_lon item, w_bbox = g_bbox item\<rparr>], snd ?done) =
      (Inr rs, calls_after_geocoding lib cl 1 wps (snd ?done))"
    by (intro Cons.IH) blast
  with ok show ?case by (simp add: Let_def)
qed

lemma resolve_loop_first_failure:
  assumes "j < length wps"
    and "\<forall>i<j. \<exists>item others.
           fst (geocode lib cl (calls_after_geocoding lib cl 1 (take i wps) calls) (wps ! i)
                  1 None None) = Inr (item # others)"
    and "fst (geocode lib cl (calls_after_geocoding lib cl 1 (take j wps) calls) (wps ! j)
                1 None None) = Inl e"
  shows "resolve_loop lib cl wps (resolved, calls) =
           (Inl e, calls_after_geocoding lib cl 1 (take (Suc j) wps) calls)"
  using assms
proof (induction wps arbitrary: resolved calls j)
  case Nil
  then show ?case by simp
next
  case (Cons wp wps)
  let ?done = "geocode lib cl calls wp 1 None None"
  show ?case
  proof (cases j)
    case 0
    with Cons.prems(3) show ?thesis by (simp add: Let_def)
  next
    case (Suc k)
    from Cons.prems(2) [rule_format, of 0] Suc obtain item others where
      ok: "fst ?done = Inr (item # others)" by auto
    have earlier: "\<forall>i<k. \<exists>item others.
          fst (geocode lib cl (calls_after_geocoding lib cl 1 (take i wps) (snd ?done)) (wps ! i)
                 1 None None) = Inr (item # others)"
    proof (intro allI impI)
      fix i assume "i < k"
      with Cons.prems(2) [rule_format, of "Suc i"] Suc
      show "\<exists>item others.
          fst (geocode lib cl (calls_after_geocoding lib cl 1 (take i wps) (snd ?done)) (wps ! i)
                 1 None None) = Inr (item # others)" by simp
    qed
    from Cons.prems(1,3) Suc have k: "k < length wps"
      and fails: "fst (geocode lib cl (calls_after_geocoding lib cl 1 (take k wps) (snd ?done))
                         (wps ! k) 1 None None) = Inl e"
      by simp_all
    from Cons.IH [OF k earlier fails] ok Suc show ?thesis by (simp add: Let_def)
  qed
qed

lemma route_blank_outcomes:
  assumes "list_all isspace q" and "2 \<le> length (pre @ q # post)"
  shows "(\<forall>e. fst (resolve_loop lib cl pre ([], calls)) = Inl e \<longrightarrow>
            route_waypoints lib cl calls (pre @ q # post) =
              (Inl e, snd (resolve_loop lib cl pre ([], calls))))
    \<and> ((\<forall>i<length pre. \<exists>item others.
            fst (geocode lib cl (calls_after_geocoding lib cl 1 (take i pre) calls) (pre ! i)
                   1 None None) = Inr (item # others)) \<longrightarrow>
          route_waypoints lib cl calls (pre @ q # post) =
            (Inl (ValueError EMPTY_QUERY), calls_after_geocoding lib cl 1 pre calls))
    \<and> (\<forall>j e. j < length pre
          \<and> (\<forall>i<j. \<exists>item others.
                fst (geocode lib cl (calls_after_geocoding lib cl 1 (take i pre) calls) (pre ! i)
                       1 None None) = Inr (item # others))
          \<and> fst (geocode lib cl (calls_after_geocoding lib cl 1 (take j pre) calls) (pre ! j)
                    1 None None) = Inl e \<longrightarrow>
          route_waypoints lib cl calls (pre @ q # post) =
            (Inl e, calls_after_geocoding lib cl 1 (take (Suc j) pre) calls))"
proof -
  let ?pre = "resolve_loop lib cl pre ([], calls)"
  have whole: "resolve_loop lib cl (pre @ q # post) ([], calls) =
      (case fst ?pre of Inl e \<Rightarrow> ?pre | Inr r \<Rightarrow> (Inl (ValueError EMPTY_QUERY), snd ?pre))"
    by (simp add: resolve_loop_append resolve_loop_blank [OF assms(1)]
          del: resolve_loop.simps split: sum.splits)
  note route = route_waypoints_unfold [OF assms(2), of lib cl calls]
  have res: "route_waypoints lib cl calls (pre @ q # post) =
      (case fst ?pre of Inl e \<Rightarrow> (Inl e, snd ?pre)
                      | Inr r \<Rightarrow> (Inl (ValueError EMPTY_QUERY), snd ?pre))"
    unfolding route whole by (cases "fst ?pre") simp_all
  have a: "\<forall>e. fst ?pre = Inl e \<longrightarrow>
            route_waypoints lib cl calls (pre @ q # post) = (Inl e, snd ?pre)"
    using res by simp
  have b: "route_waypoints lib cl calls (pre @ q # post) =
            (Inl (ValueError EMPTY_QUERY), calls_after_geocoding lib cl 1 pre calls)"
    if "\<forall>i<length pre. \<exists>item others.
            fst (geocode lib cl (calls_after_geocoding lib cl 1 (take i pre) calls) (pre ! i)
                   1 None None) = Inr (item # others)"
    using resolve_loop_all_resolved [OF that, of "[]"] res by auto
  have c: "route_waypoints lib cl calls (pre @ q # post) =
            (Inl e, calls_after_geocoding lib cl 1 (take (Suc j) pre) calls)"
    if "j < length pre
          \<and> (\<forall>i<j. \<exists>item others.
                fst (geocode lib cl (calls_after_geocoding lib cl 1 (take i pre) calls) (pre ! i)
                       1 None None) = Inr (item # others))
          \<and> fst (geocode lib cl (calls_after_geocoding lib cl 1 (take j pre) calls) (pre ! j)
                    1 None None) = Inl e" for j e
  proof -
    from that have "resolve_loop lib cl pre ([], calls) =
        (Inl e, calls_after_geocoding lib cl 1 (take (Suc j) pre) calls)"
      by (intro resolve_loop_first_failure) simp_all
    with res show ?thesis by simp
  qed
  from a b c show ?thesis by blast
qed

text \<open>
  Claim C9, as the code has it. \<open>geocode\<close> and \<open>bbox_from_place\<close> raise the validation error
  for an empty or whitespace-only query, and \<open>reverse_geocode\<close>, \<open>nearby_places\<close> and
  \<open>admin_boundaries\<close> raise it for a latitude outside [-90, 90] or a longitude outside
  [-180, 180], naming the latitude when it is out of range and the longitude otherwise, all
  before any call on the client. \<open>route_waypoints\<close> raises the validation error for fewer
  than two waypoints before any call. An empty or whitespace-only waypoint makes it fail,
  and no call is made for that waypoint or a later one; the waypoints before it are
  geocoded first, in order. When \<open>geocode\<close> returns for every one of them, the failure is
  the validation error, raised after their calls. When \<open>geocode\<close> raises for one of them,
  the failure is the exception of the first of them for which it raises, and the calls stop
  with that waypoint.
\<close>

theorem validation_before_calls:
  "(list_all isspace q \<longrightarrow>
      geocode lib cl calls q limit cc lang = (Inl (ValueError EMPTY_QUERY), calls)
    \<and> bbox_from_place lib cl calls q padding = (Inl (ValueError EMPTY_QUERY), calls))
 \<and> (\<not> (- 90 \<le> lat \<and> lat \<le> 90) \<or> \<not> (- 180 \<le> lon \<and> lon \<le> 180) \<longrightarrow>
      reverse_geocode lib cl calls lat lon zoom lang =
        (Inl (ValueError (if \<not> (- 90 \<le> lat \<and> lat \<le> 90) then INVALID_LAT lat
                          else INVALID_LON lon)), calls)
    \<and> nearby_places lib cl calls lat lon limit categories =
        (Inl (ValueError (if \<not> (- 90 \<le> lat \<and> lat \<le> 90) then INVALID_LAT lat
                          else INVALID_LON lon)), calls)
    \<and> admin_boundaries cl calls lat lon =
        (Inl (ValueError (if \<not> (- 90 \<le> lat \<and> lat \<le> 90) then INVALID_LAT lat
                          else INVALID_LON lon)), calls))
 \<and> (length wps < 2 \<longrightarrow>
      route_waypoints lib cl calls wps = (Inl (ValueError WAYPOINTS_MIN), calls))
 \<and> (list_all isspace q \<and> 2 \<le> length (pre @ q # post) \<longrightarrow>
      (\<exists>e. fst (route_waypoints lib cl calls (pre @ q # post)) = Inl e)
    \<and> (\<exists>k\<le>length pre. snd (route_waypoints lib cl calls (pre @ q # post))
                        = calls @ map waypoint_search (take k pre))
    \<and> (\<forall>resolved. fst (resolve_loop lib cl pre ([], calls)) = Inr resolved \<longrightarrow>
          route_waypoints lib cl calls (pre @ q # post) =
            (Inl (ValueError EMPTY_QUERY), snd (resolve_loop lib cl pre ([], calls))))
    \<and> (\<forall>e. fst (resolve_loop lib cl pre ([], calls)) = Inl e \<longrightarrow>
          route_waypoints lib cl calls (pre @ q # post) =
            (Inl e, snd (resolve_loop lib cl pre ([], calls))))
    \<and> ((\<forall>i<length pre. \<exists>item others.
            fst (geocode lib cl (calls_after_geocoding lib cl 1 (take i pre) calls) (pre ! i)
                   1 None None) = Inr (item # others)) \<longrightarrow>
          route_waypoints lib cl calls (pre @ q # post) =
            (Inl (ValueError EMPTY_QUERY), calls_after_geocoding lib cl 1 pre calls))
    \<and> (\<forall>j e. j < length pre
          \<and> (\<forall>i<j. \<exists>item others.
                fst (geocode lib cl (calls_after_geocoding lib cl 1 (take i pre) calls) (pre ! i)
                       1 None None) = Inr (item # others))
          \<and> fst (geocode lib cl (calls_after_geocoding lib cl 1 (take j pre) calls) (pre ! j)
                    1 None None) = Inl e \<longrightarrow>
          route_waypoints lib cl calls (pre @ q # post) =
            (Inl e, calls_after_geocoding lib cl 1 (take (Suc j) pre) calls)))"
proof (intro conjI impI)
  assume "list_all isspace q"
  then show "geocode lib cl calls q limit cc lang = (Inl (ValueError EMPTY_QUERY), calls)"
    by (rule geocode_blank)
next
  assume "list_all isspace q"
  then show "bbox_from_place lib cl calls q padding = (Inl (ValueError EMPTY_QUERY), calls)"
    by (simp add: bbox_from_place_def validate_query_blank)
next
  assume bad: "\<not> (- 90 \<le> lat \<and> lat \<le> 90) \<or> \<not> (- 180 \<le> lon \<and> lon \<le> 180)"
  note v = validate_coordinates_bad [OF bad]
  show "reverse_geocode lib cl calls lat lon zoom lang =
        (Inl (ValueError (if \<not> (- 90 \<le> lat \<and> lat \<le> 90) then INVALID_LAT lat
                          else INVALID_LON lon)), calls)"
    by (simp only: reverse_geocode_def v sum.case)
  show "nearby_places lib cl calls lat lon limit categories =
        (Inl (ValueError (if \<not> (- 90 \<le> lat \<and> lat \<le> 90) then INVALID_LAT lat
                          else INVALID_LON lon)), calls)"
    by (simp only: nearby_places_def v sum.case)
  show "admin_boundaries cl calls lat lon =
        (Inl (ValueError (if \<not> (- 90 \<le> lat \<and> lat \<le> 90) then INVALID_LAT lat
                          else INVALID_LON lon)), calls)"
    by (simp only: admin_boundaries_def v sum.case)
next
  assume "length wps < 2"
  then show "route_waypoints lib cl calls wps = (Inl (ValueError WAYPOINTS_MIN), calls)"
    by (simp add: route_waypoints_def)
next
  assume a: "list_all isspace q \<and> 2 \<le> length (pre @ q # post)"
  then have b: "list_all isspace q" and c: "2 \<le> length (pre @ q # post)" by simp_all
  note r = route_waypoints_blank [OF b c, of lib cl calls]
  from r show "\<exists>e. fst (route_waypoints lib cl calls (pre @ q # post)) = Inl e" by blast
  from r show "\<exists>k\<le>length pre. snd (route_waypoints lib cl calls (pre @ q # post))
                        = calls @ map waypoint_search (take k pre)" by blast
  from r show "\<forall>resolved. fst (resolve_loop lib cl pre ([], calls)) = Inr resolved \<longrightarrow>
          route_waypoints lib cl calls (pre @ q # post) =
            (Inl (ValueError EMPTY_QUERY), snd (resolve_loop lib cl pre ([], calls)))" by blast
  note o = route_blank_outcomes [OF b c, of lib cl calls]
  from o show "\<forall>e. fst (resolve_loop lib cl pre ([], calls)) = Inl e \<longrightarrow>
          route_waypoints lib cl calls (pre @ q # post) =
            (Inl e, snd (resolve_loop lib cl pre ([], calls)))" by blast
  show "route_waypoints lib cl calls (pre @ q # post) =
            (Inl (ValueError EMPTY_QUERY), calls_after_geocoding lib cl 1 pre calls)"
    if "\<forall>i<length pre. \<exists>item others.
            fst (geocode lib cl (calls_after_geocoding lib cl 1 (take i pre) calls) (pre ! i)
                   1 None None) = Inr (item # others)"
    using o that by blast
  from o show "\<forall>j e. j < length pre
          \<and> (\<forall>i<j. \<exists>item others.
                fst (geocode lib cl (calls_after_geocoding lib cl 1 (take i pre) calls) (pre ! i)
                       1 None None) = Inr (item # others))
          \<and> fst (geocode lib cl (calls_after_geocoding lib cl 1 (take j pre) calls) (pre ! j)
                    1 None None) = Inl e \<longrightarrow>
          route_waypoints lib cl calls (pre @ q # post) =
            (Inl e, calls_after_geocoding lib cl 1 (take (Suc j) pre) calls)" by blast
qed

text \<open>
  The claim as stated fails for \<open>route_waypoints\<close>: with the waypoints \<open>Paris\<close> and the empty
  string, the validation error is raised after the search for \<open>Paris\<close> has been made.
\<close>

theorem route_validation_counterexample:
  "list_all isspace []
   \<and> route_waypoints example_lib example_client [] [''Paris'', []] =
       (Inl (ValueError EMPTY_QUERY), [Search ''Paris'' 1 None None False None])"
  by (simp add: route_waypoints_def geocode_Paris geocode_blank Let_def)

lemma blank_example: "list_all isspace ''  ''"
  by (simp add: isspace_def)

text \<open>The theorem on a query of two spaces, on coordinates out of range, on a single
  waypoint, and on routes with a waypoint of two spaces: in first place, after a waypoint
  that resolves, and after a waypoint for which \<open>geocode\<close> raises.\<close>

theorem validation_before_calls_witness:
  "geocode example_lib example_client [] ''  '' 5 None None = (Inl (ValueError EMPTY_QUERY), [])
   \<and> bbox_from_place example_lib example_client [] ''  '' 0 = (Inl (ValueError EMPTY_QUERY), [])
   \<and> reverse_geocode example_lib example_client [] 91 0 18 None
       = (Inl (ValueError (INVALID_LAT 91)), [])
   \<and> nearby_places example_lib example_client [] 0 181 10 None
       = (Inl (ValueError (INVALID_LON 181)), [])
   \<and> admin_boundaries example_client [] (- 91) 0 = (Inl (ValueError (INVALID_LAT (- 91))), [])
   \<and> route_waypoints example_lib example_client [] [''Paris'']
       = (Inl (ValueError WAYPOINTS_MIN), [])
   \<and> route_waypoints example_lib example_client [] [''  '', ''Paris'']
       = (Inl (ValueError EMPTY_QUERY), [])
   \<and> route_waypoints example_lib example_client [] [''Paris'', ''  '']
       = (Inl (ValueError EMPTY_QUERY), [Search ''Paris'' 1 None None False None])
   \<and> route_waypoints example_lib example_client [] [''Nowhere'', ''  '']
       = (Inl (ValueError (NO_RESULTS ''Nowhere'')), [Search ''Nowhere'' 1 None None False None])"
proof -
  note v = validation_before_calls [where lib = example_lib and cl = example_client
      and calls = "[]"]
  from v [where q = "''  ''" and limit = 5 and cc = None and lang = None and padding = 0]
    blank_example
  have a: "geocode example_lib example_client [] ''  '' 5 None None
             = (Inl (ValueError EMPTY_QUERY), [])
      \<and> bbox_from_place example_lib example_client [] ''  '' 0
             = (Inl (ValueError EMPTY_QUERY), [])"
    by blast
  from v [where lat = 91 and lon = 0 and zoom = 18 and lang = None]
  have b: "reverse_geocode example_lib example_client [] 91 0 18 None
       = (Inl (ValueError (INVALID_LAT 91)), [])" by simp
  from v [where lat = 0 and lon = 181 and limit = 10 and categories = None]
  have c: "nearby_places example_lib example_client [] 0 181 10 None
       = (Inl (ValueError (INVALID_LON 181)), [])" by simp
  from v [where lat = "- 91" and lon = 0]
  have d: "admin_boundaries example_client [] (- 91) 0
       = (Inl (ValueError (INVALID_LAT (- 91))), [])" by simp
  from v [where wps = "[''Paris'']"]
  have e: "route_waypoints example_lib example_client [] [''Paris'']
       = (Inl (ValueError WAYPOINTS_MIN), [])" by simp
  from v [where q = "''  ''" and pre = "[]" and post = "[''Paris'']"] blank_example
  have f: "route_waypoints example_lib example_client [] [''  '', ''Paris'']
       = (Inl (ValueError EMPTY_QUERY), [])" by simp
  from v [where q = "''  ''" and pre = "[''Paris'']" and post = "[]"] blank_example
  have "(\<forall>i<length [''Paris'']. \<exists>item others.
            fst (geocode example_lib example_client
                   (calls_after_geocoding example_lib example_client 1 (take i [''Paris'']) [])
                   ([''Paris''] ! i) 1 None None) = Inr (item # others)) \<longrightarrow>
          route_waypoints example_lib example_client [] ([''Paris''] @ ''  '' # []) =
            (Inl (ValueError EMPTY_QUERY),
             calls_after_geocoding example_lib example_client 1 [''Paris''] [])"
    by simp
  then have g: "route_waypoints example_lib example_client [] [''Paris'', ''  '']
       = (Inl (ValueError EMPTY_QUERY), [Search ''Paris'' 1 None None False None])"
    by (simp add: geocode_Paris)
  from v [where q = "''  ''" and pre = "[''Nowhere'']" and post = "[]"] blank_example
  have "\<forall>j e. j < length [''Nowhere'']
          \<and> (\<forall>i<j. \<exists>item others.
                fst (geocode example_lib example_client
                       (calls_after_geocoding example_lib example_client 1
                          (take i [''Nowhere'']) [])
                       ([''Nowhere''] ! i) 1 None None) = Inr (item # others))
          \<and> fst (geocode example_lib example_client
                    (calls_after_geocoding example_lib example_client 1
                       (take j [''Nowhere'']) [])
                    ([''Nowhere''] ! j) 1 None None) = Inl e \<longrightarrow>
          route_waypoints example_lib example_client [] ([''Nowhere''] @ ''  '' # []) =
            (Inl e, calls_after_geocoding example_lib example_client 1
                      (take (Suc j) [''Nowhere'']) [])"
    by simp
  from this [rule_format, of 0 "ValueError (NO_RESULTS ''Nowhere'')"]
  have h: "route_waypoints example_lib example_client [] [''Nowhere'', ''  '']
       = (Inl (ValueError (NO_RESULTS ''Nowhere'')), [Search ''Nowhere'' 1 None None False None])"
    by (simp add: geocode_Nowhere)
  from a b c d e f g h show ?thesis by blast
qed

subsection \<open>Routes\<close>

lemma resolve_loop_resolved:
  "fst (resolve_loop lib cl wps (resolved, calls)) = Inr rs \<Longrightarrow>
   \<exists>new. rs = resolved @ new \<and> length new = length wps
     \<and> (\<forall>i<length wps. \<exists>item others.
           fst (geocode lib cl (calls_after_geocoding lib cl 1 (take i wps) calls) (wps ! i)
                  1 None None) = Inr (item # others)
         \<and> new ! i = resolved_waypoint item)"
proof (induction wps arbitrary: resolved calls)
  case Nil
  then show ?case by simp
next
  case (Cons wp wps)
  let ?done = "geocode lib cl calls wp 1 None None"
  from Cons.prems obtain item others where ok: "fst ?done = Inr (item # others)"
    by (auto simp: Let_def split: sum.splits list.splits)
  with Cons.prems have "fst (resolve_loop lib cl wps
      (resolved @ [resolved_waypoint item], snd ?done)) = Inr rs"
    by (simp add: Let_def resolved_waypoint_def)
  from Cons.IH [OF this] obtain new where new:
    "rs = (resolved @ [resolved_waypoint item]) @ new" "length new = length wps"
    "\<forall>i<length wps. \<exists>item others.
        fst (geocode lib cl (calls_after_geocoding lib cl 1 (take i wps) (snd ?done)) (wps ! i)
               1 None None) = Inr (item # others)
      \<and> new ! i = resolved_waypoint item"
    by blast
  have "\<exists>it others.
          fst (geocode lib cl (calls_after_geocoding lib cl 1 (take i (wp # wps)) calls)
                 ((wp # wps) ! i) 1 None None) = Inr (it # others)
        \<and> (resolved_waypoint item # new) ! i = resolved_waypoint it"
    if "i < length (wp # wps)" for i
  proof (cases i)
    case 0
    with ok show ?thesis by simp
  next
    case (Suc j)
    with that new(3) show ?thesis by simp
  qed
  with new(1,2) show ?case
    by (intro exI [of _ "resolved_waypoint item # new"]) simp
qed

lemma legs_loop_legs:
  "legs_loop ws (legs, acc) = Inr (legs', acc') \<Longrightarrow>
   \<exists>new ds. legs' = legs @ new \<and> length new = length ws - 1 \<and> length ds = length ws - 1
     \<and> acc' = acc + sum_list ds
     \<and> (\<forall>i<length ws - 1.
           haversine_distance (w_lat (ws ! i)) (w_lon (ws ! i))
             (w_lat (ws ! Suc i)) (w_lon (ws ! Suc i)) = Inr (ds ! i)
         \<and> new ! i = \<lparr>l_from_name = w_name (ws ! i), l_to_name = w_name (ws ! Suc i),
                       l_distance_m = py_round (ds ! i) 1\<rparr>)"
proof (induction ws "(legs, acc)" arbitrary: legs acc rule: legs_loop.induct)
  case (1 a b rest legs acc)
  from "1.prems" obtain d where
    d: "haversine_distance (w_lat a) (w_lon a) (w_lat b) (w_lon b) = Inr d"
    by (auto split: sum.splits)
  let ?leg = "\<lparr>l_from_name = w_name a, l_to_name = w_name b, l_distance_m = py_round d 1\<rparr>"
  from "1.prems" d have "legs_loop (b # rest) (legs @ [?leg], acc + d) = Inr (legs', acc')"
    by simp
  from "1.hyps" [OF d this] obtain new ds where n:
    "legs' = (legs @ [?leg]) @ new" "length new = length (b # rest) - 1"
    "length ds = length (b # rest) - 1" "acc' = acc + d + sum_list ds"
    "\<forall>i<length (b # rest) - 1.
        haversine_distance (w_lat ((b # rest) ! i)) (w_lon ((b # rest) ! i))
          (w_lat ((b # rest) ! Suc i)) (w_lon ((b # rest) ! Suc i)) = Inr (ds ! i)
      \<and> new ! i = \<lparr>l_from_name = w_name ((b # rest) ! i),
                    l_to_name = w_name ((b # rest) ! Suc i),
                    l_distance_m = py_round (ds ! i) 1\<rparr>"
    by blast
  have "haversine_distance (w_lat ((a # b # rest) ! i)) (w_lon ((a # b # rest) ! i))
          (w_lat ((a # b # rest) ! Suc i)) (w_lon ((a # b # rest) ! Suc i)) = Inr ((d # ds) ! i)
      \<and> (?leg # new) ! i = \<lparr>l_from_name = w_name ((a # b # rest) ! i),
                    l_to_name = w_name ((a # b # rest) ! Suc i),
                    l_distance_m = py_round ((d # ds) ! i) 1\<rparr>"
    if "i < length (a # b # rest) - 1" for i
  proof (cases i)
    case 0
    with d show ?thesis by simp
  next
    case (Suc j)
    with that n(5) show ?thesis by simp
  qed
  with n(1-4) show ?case
    by (intro exI [of _ "?leg # new"] exI [of _ "d # ds"]) simp
qed simp_all

lemma round_half_even_near: "\<bar>of_int (round_half_even y) - y\<bar> \<le> 1 / 2"
proof -
  have "of_int \<lfloor>y\<rfloor> \<le> y" "y < of_int \<lfloor>y\<rfloor> + 1" by linarith+
  then show ?thesis
    by (auto simp: round_half_even_def Let_def abs_le_iff)
qed

lemma py_round_near: "\<bar>py_round x 1 - x\<bar> \<le> 1 / 20"
proof -
  have "\<bar>py_round x 1 - x\<bar> = \<bar>of_int (round_half_even (x * 10)) - x * 10\<bar> / 10"
    by (simp add: py_round_def abs_if field_simps)
  with round_half_even_near [of "x * 10"] show ?thesis by simp
qed

lemma sum_rounded_near:
  "\<bar>sum_list (map (\<lambda>d. py_round d 1) ds) - sum_list ds\<bar> \<le> real (length ds) / 20"
proof (induction ds)
  case Nil
  then show ?case by simp
next
  case (Cons d ds)
  have "\<bar>(py_round d 1 + sum_list (map (\<lambda>d. py_round d 1) ds)) - (d + sum_list ds)\<bar>
        \<le> \<bar>py_round d 1 - d\<bar> + \<bar>sum_list (map (\<lambda>d. py_round d 1) ds) - sum_list ds\<bar>"
    by linarith
  with py_round_near [of d] Cons show ?case
    by (simp add: field_simps)
qed

lemma min_from_fold: "min_from m xs = fold min xs m"
proof (induction xs arbitrary: m)
  case Nil
  then show ?case by simp
next
  case (Cons x xs)
  have "(if x < m then x else m) = min x m" by (simp add: min_def)
  with Cons show ?case by simp
qed

lemma max_from_fold: "max_from m xs = fold max xs m"
proof (induction xs arbitrary: m)
  case Nil
  then show ?case by simp
next
  case (Cons x xs)
  have "(if m < x then x else m) = max x m" by (simp add: max_def)
  with Cons show ?case by simp
qed

lemma min_from_Min: "min_from (f b) (map f bs) = Min (f ` set (b # bs))"
  using Min.set_eq_fold [of "f b" "map f bs"] by (simp add: min_from_fold)

lemma max_from_Max: "max_from (f b) (map f bs) = Max (f ` set (b # bs))"
  using Max.set_eq_fold [of "f b" "map f bs"] by (simp add: max_from_fold)

lemma bbox_union_Inr:
  assumes "bbox_union bboxes = Inr u" and "bboxes \<noteq> []"
  shows "u = [Min ((\<lambda>c. c ! 0) ` set bboxes), Min ((\<lambda>c. c ! 1) ` set bboxes),
              Max ((\<lambda>c. c ! 2) ` set bboxes), Max ((\<lambda>c. c ! 3) ` set bboxes)]"
proof -
  from assms(2) obtain b bs where bs: "bboxes = b # bs" by (cases bboxes) auto
  with assms(1) have "u = [min_from (b ! 0) (map (\<lambda>c. c ! 0) bs),
                    min_from (b ! 1) (map (\<lambda>c. c ! 1) bs),
                    max_from (b ! 2) (map (\<lambda>c. c ! 2) bs),
                    max_from (b ! 3) (map (\<lambda>c. c ! 3) bs)]"
    by (auto simp: bbox_union_def split: if_splits)
  then show ?thesis
    unfolding bs
    by (simp only: min_from_Min [of "\<lambda>c. c ! 0"] min_from_Min [of "\<lambda>c. c ! 1"]
          max_from_Max [of "\<lambda>c. c ! 2"] max_from_Max [of "\<lambda>c. c ! 3"])
qed

lemma map_exc_each: "map_exc f xs = Inr ys \<Longrightarrow> y \<in> set ys \<Longrightarrow> \<exists>x. f x = Inr y"
proof (induction xs arbitrary: ys)
  case Nil
  then show ?case by simp
next
  case (Cons x xs)
  then show ?case by (auto split: sum.splits)
qed

lemma parsed_bbox_length:
  assumes "parse_search_result lib r = Inr item"
  shows "length (g_bbox item) = 4"
proof -
  from parse_search_result_Inr [OF assms]
  have "search_bbox lib r (g_lat item) (g_lon item) = Inr (g_bbox item)" by simp
  from search_bbox_Inr [OF this] convert_bbox_Inr [of lib "dict_get r ''boundingbox''" "g_bbox item"]
  show ?thesis by (cases "truthy (dict_get r ''boundingbox'')") auto
qed

lemma geocode_bbox_length:
  assumes "fst (geocode lib cl calls q limit cc lang) = Inr items" and "item \<in> set items"
  shows "length (g_bbox item) = 4"
proof -
  from assms(1) obtain raw_results where
    "map_exc (parse_search_result lib) raw_results = Inr items"
    by (auto simp: geocode_def Let_def split: sum.splits if_splits)
  from map_exc_each [OF this assms(2)] parsed_bbox_length show ?thesis by blast
qed

text \<open>
  Claim C6. \<open>route_waypoints\<close> raises the validation error for fewer than two waypoints.
  When it returns a route: there is one resolved waypoint per input waypoint, in input
  order, each made of the first result of \<open>geocode\<close> for that waypoint (run after the
  waypoints before it); there is one leg less than waypoints; leg \<open>i\<close> runs from waypoint
  \<open>i\<close> to waypoint \<open>i + 1\<close> and its distance is the haversine distance between the two,
  rounded to one decimal; the total is the sum of the unrounded leg distances, rounded to
  one decimal, so it differs from the sum of the legs' distances by at most 0.05 for each
  leg and 0.05 for itself; and the bbox is \<open>[west, south, east, north]\<close> with the least
  west, the least south, the greatest east and the greatest north of the waypoints' boxes.
\<close>

theorem route_waypoints_legs:
  "(length wps < 2 \<longrightarrow>
      route_waypoints lib cl calls wps = (Inl (ValueError WAYPOINTS_MIN), calls))
 \<and> (fst (route_waypoints lib cl calls wps) = Inr route \<longrightarrow>
      length (rt_waypoints route) = length wps
    \<and> (\<forall>i<length wps. \<exists>item others.
          fst (geocode lib cl (calls_after_geocoding lib cl 1 (take i wps) calls) (wps ! i)
                 1 None None) = Inr (item # others)
        \<and> rt_waypoints route ! i = resolved_waypoint item)
    \<and> length (rt_legs route) = length (rt_waypoints route) - 1
    \<and> (\<exists>ds. length ds = length (rt_legs route)
          \<and> (\<forall>i<length (rt_legs route).
                haversine_distance
                  (w_lat (rt_waypoints route ! i)) (w_lon (rt_waypoints route ! i))
                  (w_lat (rt_waypoints route ! Suc i)) (w_lon (rt_waypoints route ! Suc i))
                  = Inr (ds ! i)
              \<and> rt_legs route ! i =
                  \<lparr>l_from_name = w_name (rt_waypoints route ! i),
                   l_to_name = w_name (rt_waypoints route ! Suc i),
                   l_distance_m = py_round (ds ! i) 1\<rparr>)
          \<and> rt_total_distance_m route = py_round (sum_list ds) 1)
    \<and> \<bar>rt_total_distance_m route - sum_list (map l_distance_m (rt_legs route))\<bar>
        \<le> (real (length (rt_legs route)) + 1) / 20
    \<and> (\<forall>w\<in>set (rt_waypoints route). length (w_bbox w) = 4)
    \<and> rt_bbox route =
        [Min ((\<lambda>w. w_bbox w ! 0) ` set (rt_waypoints route)),
         Min ((\<lambda>w. w_bbox w ! 1) ` set (rt_waypoints route)),
         Max ((\<lambda>w. w_bbox w ! 2) ` set (rt_waypoints route)),
         Max ((\<lambda>w. w_bbox w ! 3) ` set (rt_waypoints route))])"
proof (intro conjI impI)
  assume "length wps < 2"
  then show "route_waypoints lib cl calls wps = (Inl (ValueError WAYPOINTS_MIN), calls)"
    by (simp add: route_waypoints_def)
next
  assume ok: "fst (route_waypoints lib cl calls wps) = Inr route"
  then have two: "2 \<le> length wps"
    by (auto simp: route_waypoints_def split: if_splits)
  let ?ws = "rt_waypoints route"
  from ok route_waypoints_unfold [OF two, of lib cl calls]
  obtain resolved walked combined where
    res: "fst (resolve_loop lib cl wps ([], calls)) = Inr resolved"
    and walked: "legs_loop resolved ([], 0) = Inr walked"
    and union: "bbox_union (map w_bbox resolved) = Inr combined"
    and route: "route = \<lparr>rt_waypoints = resolved, rt_legs = fst walked,
                   rt_total_distance_m = py_round (snd walked) 1, rt_bbox = combined\<rparr>"
    by (auto simp: bind_exc_Inr split: sum.splits)
  from resolve_loop_resolved [OF res] have len: "length resolved = length wps"
    and each: "\<forall>i<length wps. \<exists>item others.
          fst (geocode lib cl (calls_after_geocoding lib cl 1 (take i wps) calls) (wps ! i)
                 1 None None) = Inr (item # others)
        \<and> resolved ! i = resolved_waypoint item"
    by auto
  from len route show "length ?ws = length wps" by simp
  from each route show "\<forall>i<length wps. \<exists>item others.
          fst (geocode lib cl (calls_after_geocoding lib cl 1 (take i wps) calls) (wps ! i)
                 1 None None) = Inr (item # others)
        \<and> ?ws ! i = resolved_waypoint item" by simp
  from walked have w: "legs_loop resolved ([], 0) = Inr (fst walked, snd walked)" by simp
  from legs_loop_legs [OF w] obtain ds where ds:
    "length (fst walked) = length resolved - 1" "length ds = length resolved - 1"
    "snd walked = sum_list ds"
    "\<forall>i<length resolved - 1.
        haversine_distance (w_lat (resolved ! i)) (w_lon (resolved ! i))
          (w_lat (resolved ! Suc i)) (w_lon (resolved ! Suc i)) = Inr (ds ! i)
      \<and> fst walked ! i = \<lparr>l_from_name = w_name (resolved ! i),
                          l_to_name = w_name (resolved ! Suc i),
                          l_distance_m = py_round (ds ! i) 1\<rparr>"
    by auto
  from ds(1) route show "length (rt_legs route) = length ?ws - 1" by simp
  from ds route show "\<exists>ds. length ds = length (rt_legs route)
          \<and> (\<forall>i<length (rt_legs route).
                haversine_distance (w_lat (?ws ! i)) (w_lon (?ws ! i))
                  (w_lat (?ws ! Suc i)) (w_lon (?ws ! Suc i)) = Inr (ds ! i)
              \<and> rt_legs route ! i =
                  \<lparr>l_from_name = w_name (?ws ! i), l_to_name = w_name (?ws ! Suc i),
                   l_distance_m = py_round (ds ! i) 1\<rparr>)
          \<and> rt_total_distance_m route = py_round (sum_list ds) 1"
    by (intro exI [of _ ds]) simp
  have "map l_distance_m (fst walked) = map (\<lambda>d. py_round d 1) ds"
    using ds(1,2,4) by (intro nth_equalityI) simp_all
  then have "\<bar>py_round (sum_list ds) 1 - sum_list (map l_distance_m (fst walked))\<bar>
      \<le> \<bar>py_round (sum_list ds) 1 - sum_list ds\<bar>
        + \<bar>sum_list (map (\<lambda>d. py_round d 1) ds) - sum_list ds\<bar>"
    by simp
  with py_round_near [of "sum_list ds"] sum_rounded_near [of ds] ds(1,2)
  have "\<bar>py_round (sum_list ds) 1 - sum_list (map l_distance_m (fst walked))\<bar>
      \<le> (real (length (fst walked)) + 1) / 20"
    by (simp add: field_simps)
  with ds(3) route
  show "\<bar>rt_total_distance_m route - sum_list (map l_distance_m (rt_legs route))\<bar>
        \<le> (real (length (rt_legs route)) + 1) / 20" by simp
  have "length (w_bbox w) = 4" if "w \<in> set resolved" for w
  proof -
    from that obtain i where i: "i < length resolved" "resolved ! i = w"
      by (auto simp: in_set_conv_nth)
    with each len obtain item others where
      "fst (geocode lib cl (calls_after_geocoding lib cl 1 (take i wps) calls) (wps ! i)
              1 None None) = Inr (item # others)" "w = resolved_waypoint item"
      by auto
    with geocode_bbox_length [of lib cl _ _ 1 None None "item # others" item]
    show ?thesis by (simp add: resolved_waypoint_def)
  qed
  with route show "\<forall>w\<in>set ?ws. length (w_bbox w) = 4" by simp
  from two len have "map w_bbox resolved \<noteq> []" by auto
  from bbox_union_Inr [OF union this] route
  show "rt_bbox route =
        [Min ((\<lambda>w. w_bbox w ! 0) ` set ?ws), Min ((\<lambda>w. w_bbox w ! 1) ` set ?ws),
         Max ((\<lambda>w. w_bbox w ! 2) ` set ?ws), Max ((\<lambda>w. w_bbox w ! 3) ` set ?ws)]"
    by (simp add: image_image)
qed

subsection \<open>Distances\<close>

lemma haversine_same: "haversine_distance lat lon lat lon = Inr 0"
  by (simp add: haversine_distance_def radians_def py_sqrt_def py_atan2_def)

lemma haversine_equator:
  assumes "0 \<le> lon2 - lon1" and "lon2 - lon1 < 180"
  shows "haversine_distance 0 lon1 0 lon2 = Inr (6371000 * radians (lon2 - lon1))"
proof -
  let ?x = "radians (lon2 - lon1) / 2"
  from assms have x: "0 \<le> ?x" "?x < pi / 2"
    by (simp_all add: radians_def)
  then have s: "0 \<le> sin ?x" and c: "0 < cos ?x"
    by (auto intro: sin_ge_zero cos_gt_zero_pi)
  have a: "(sin ?x)\<^sup>2 < 0 \<longleftrightarrow> False" by (simp add: not_less)
  have one: "1 - (sin ?x)\<^sup>2 = (cos ?x)\<^sup>2"
    by (simp add: cos_squared_eq)
  have "arctan (sin ?x / cos ?x) = ?x"
    using arctan_tan [of ?x] x by (simp add: tan_def)
  with s c show ?thesis
    by (simp add: haversine_distance_def Let_def py_sqrt_def py_atan2_def one
          radians_def [of 0] radians_def [of "0 - 0"] not_less)
qed

lemma py_round_zero: "py_round 0 n = 0"
  by (simp add: py_round_def round_half_even_def)

lemma py_round_pos:
  assumes "1 \<le> x"
  shows "0 < py_round x 1"
proof -
  have "x * 10 - 1 / 2 \<le> of_int (round_half_even (x * 10))"
    using round_half_even_near [of "x * 10"] by linarith
  with assms have "0 < real_of_int (round_half_even (x * 10))" by linarith
  then show ?thesis by (simp add: py_round_def)
qed

lemma equator_distance_pos: "0 < py_round (6371000 * radians (1 / 100)) 1"
proof (rule py_round_pos)
  have "6371000 * radians (1 / 100) = 6371 * pi / 18"
    by (simp add: radians_def)
  with pi_ge_two show "1 \<le> 6371000 * radians (1 / 100)" by simp
qed

lemma haversine_here_city:
  "haversine_distance 0 10 0 (1001 / 100) = Inr (6371000 * radians (1 / 100))"
proof -
  have d: "(1001 / 100 :: real) - 10 = 1 / 100" by simp
  have "haversine_distance 0 10 0 (1001 / 100) = Inr (6371000 * radians (1001 / 100 - 10))"
    by (rule haversine_equator) simp_all
  then show ?thesis by (simp only: d)
qed

subsection \<open>A route along the equator\<close>

lemma parse_here: "parse_search_result example_lib place_here = Inr item_here"
  by (simp add: parse_search_result_def bind_exc_def place_here_def example_lib_def
        dict_item_def dict_get_def dict_get_default_def search_bbox_def int_if_set_def
        float_if_set_def bbox_buffer_for_rank_def DEFAULT_BBOX_BUFFER_def item_here_def Let_def)

lemma parse_city: "parse_search_result example_lib place_city = Inr item_city"
  by (simp add: parse_search_result_def bind_exc_def place_city_def example_lib_def
        dict_item_def dict_get_def dict_get_default_def search_bbox_def int_if_set_def
        float_if_set_def bbox_buffer_for_rank_def DEFAULT_BBOX_BUFFER_def item_city_def Let_def)

lemma geocode_here:
  "geocode example_lib equator_client calls ''Here'' 1 None None =
     (Inr [item_here], calls @ [Search ''Here'' 1 None None False None])"
  by (simp add: geocode_def validate_query_def py_strip_def isspace_def equator_client_def
        parse_here)

lemma geocode_city:
  "geocode example_lib equator_client calls ''City'' 1 None None =
     (Inr [item_city], calls @ [Search ''City'' 1 None None False None])"
  by (simp add: geocode_def validate_query_def py_strip_def isspace_def equator_client_def
        parse_city)

lemma route_example:
  "fst (route_waypoints example_lib equator_client [] [''Here'', ''City'']) = Inr example_route"
  by (simp add: route_waypoints_def Let_def geocode_here geocode_city bind_exc_def
        item_here_def item_city_def haversine_here_city bbox_union_def example_route_def
        resolved_waypoint_def)

text \<open>The theorem on a single waypoint, and on the route from \<open>Here\<close> to \<open>City\<close>.\<close>

theorem route_waypoints_legs_witness:
  "route_waypoints example_lib equator_client [] [''Here''] = (Inl (ValueError WAYPOINTS_MIN), [])
   \<and> fst (route_waypoints example_lib equator_client [] [''Here'', ''City'']) = Inr example_route
   \<and> length (rt_waypoints example_route) = length [''Here'', ''City'']
   \<and> length (rt_legs example_route) = length (rt_waypoints example_route) - 1
   \<and> \<bar>rt_total_distance_m example_route - sum_list (map l_distance_m (rt_legs example_route))\<bar>
        \<le> (real (length (rt_legs example_route)) + 1) / 20
   \<and> rt_bbox example_route =
        [Min ((\<lambda>w. w_bbox w ! 0) ` set (rt_waypoints example_route)),
         Min ((\<lambda>w. w_bbox w ! 1) ` set (rt_waypoints example_route)),
         Max ((\<lambda>w. w_bbox w ! 2) ` set (rt_waypoints example_route)),
         Max ((\<lambda>w. w_bbox w ! 3) ` set (rt_waypoints example_route))]"
proof -
  from route_waypoints_legs [where lib = example_lib and cl = equator_client and calls = "[]"
      and wps = "[''Here'']"]
  have a: "route_waypoints example_lib equator_client [] [''Here'']
             = (Inl (ValueError WAYPOINTS_MIN), [])"
    by simp
  from route_waypoints_legs [where lib = example_lib and cl = equator_client and calls = "[]"
      and wps = "[''Here'', ''City'']" and route = example_route] route_example
  have "length (rt_waypoints example_route) = length [''Here'', ''City'']
   \<and> length (rt_legs example_route) = length (rt_waypoints example_route) - 1
   \<and> \<bar>rt_total_distance_m example_route - sum_list (map l_distance_m (rt_legs example_route))\<bar>
        \<le> (real (length (rt_legs example_route)) + 1) / 20
   \<and> rt_bbox example_route =
        [Min ((\<lambda>w. w_bbox w ! 0) ` set (rt_waypoints example_route)),
         Min ((\<lambda>w. w_bbox w ! 1) ` set (rt_waypoints example_route)),
         Max ((\<lambda>w. w_bbox w ! 2) ` set (rt_waypoints example_route)),
         Max ((\<lambda>w. w_bbox w ! 3) ` set (rt_waypoints example_route))]"
    by blast
  with a route_example show ?thesis by blast
qed

subsection \<open>Nearby places\<close>

lemma entry_here:
  "nearby_entry example_lib 0 10 [] place_here = ([JStr ''Here''], Inr (Some nearby_here))"
  by (simp add: nearby_entry_def place_here_def example_lib_def dict_get_default_def
        dict_get_def float_if_set_def bind_exc_def haversine_same py_round_zero nearby_here_def
        Let_def)

lemma entry_city:
  "nearby_entry example_lib 0 10 [JStr ''Here''] place_city =
     ([JStr ''Here'', JStr ''City''], Inr (Some nearby_city))"
  by (simp add: nearby_entry_def place_city_def example_lib_def dict_get_default_def
        dict_get_def float_if_set_def bind_exc_def haversine_here_city py_eq_def
        nearby_city_def Let_def)

lemma entry_city_seen:
  "nearby_entry example_lib 0 10 [JStr ''Here'', JStr ''City''] place_city =
     ([JStr ''Here'', JStr ''City''], Inr None)"
  by (simp add: nearby_entry_def place_city_def dict_get_default_def py_eq_def Let_def)

lemma zoom_loop_equator:
  "zoom_loop example_lib equator_client 0 10
     [ZoomLevel_BUILDING, ZoomLevel_STREET, ZoomLevel_SUBURB, ZoomLevel_CITY] ([], [], []) =
   ([JStr ''Here'', JStr ''City''], [nearby_here, nearby_city],
    [Reverse 0 10 18 None, Reverse 0 10 16 None, Reverse 0 10 14 None, Reverse 0 10 10 None])"
  by (simp add: equator_client_def ZoomLevel_BUILDING_def ZoomLevel_STREET_def
        ZoomLevel_SUBURB_def ZoomLevel_CITY_def entry_here entry_city entry_city_seen)

lemma sort_here_city:
  "sort_key distance_key [nearby_here, nearby_city] = [nearby_city, nearby_here]"
  using equator_distance_pos
  by (simp add: distance_key_def nearby_here_def nearby_city_def less_eq_prod_def)

text \<open>
  Claim C7 fails on the code. For the point (0, 10) the client returns the place \<open>Here\<close>
  at the point itself and the place \<open>City\<close> 0.01 degrees to the east. \<open>Here\<close> has distance 0.0,
  which the sort key \<open>x.distance_m or float("inf")\<close> turns into infinity, so the nearest
  place comes last: the result is not in ascending order of distance.
\<close>

theorem nearby_places_zero_distance_last:
  "nearby_places example_lib equator_client [] 0 10 10 None =
     (Inr [nearby_city, nearby_here],
      [Reverse 0 10 18 None, Reverse 0 10 16 None, Reverse 0 10 14 None, Reverse 0 10 10 None,
       Search ''x,x'' 5 None (Some ''x,x,x,x'') True None])
   \<and> n_distance_m nearby_here = Some 0
   \<and> n_distance_m nearby_city = Some (py_round (6371000 * radians (1 / 100)) 1)
   \<and> 0 < py_round (6371000 * radians (1 / 100)) 1"
proof -
  have "client_search equator_client calls (Search ''x,x'' 5 None (Some ''x,x,x,x'') True None)
          = Inr []" for calls
    by (simp add: equator_client_def)
  then have "nearby_places example_lib equator_client [] 0 10 10 None =
     (Inr [nearby_city, nearby_here],
      [Reverse 0 10 18 None, Reverse 0 10 16 None, Reverse 0 10 14 None, Reverse 0 10 10 None,
       Search ''x,x'' 5 None (Some ''x,x,x,x'') True None])"
    by (simp add: nearby_places_def validate_coordinates_def zoom_loop_equator Let_def
          example_lib_def [THEN arg_cong, of str_of_float] sort_here_city py_take_def
          del: zoom_loop.simps sort_key_simps)
  with equator_distance_pos show ?thesis
    by (simp add: nearby_here_def nearby_city_def)
qed

end
